theory Spec2Isabelle
  imports Main "HOL-Library.AList"
begin

section \<open>PyCart: an audio cart machine\<close>

text \<open>
  A shallow embedding of \<^verbatim>\<open>pycart.py\<close>: the \<^verbatim>\<open>Clock\<close> thread with its
  callback registry, the playback unit \<^verbatim>\<open>PyCartAudio\<close>, the pad \<^verbatim>\<open>PyCartButton\<close>
  and \<^verbatim>\<open>load_conf\<close>. Python objects are records, mutation is state passing,
  exceptions are values, and the two kinds of threads are small-step machines driven by
  an explicit schedule.
\<close>

subsection \<open>Exceptions\<close>

text \<open>
  The exceptions that the modelled code raises or lets through. \<^verbatim>\<open>PyCartError\<close> is the
  program's own; the others come from the Python library calls the program makes
  (\<^verbatim>\<open>del d[k]\<close>, \<^verbatim>\<open>open\<close>, \<^verbatim>\<open>wave.open\<close>, \<^verbatim>\<open>Thread.join\<close>, \<^verbatim>\<open>bytes.decode\<close>,
  \<^verbatim>\<open>toml.loads\<close>).
\<close>

datatype exn =
    PyCartError string
  | KeyError string
  | OSError string
  | WaveError
  | RuntimeError
  | LookupError string
  | UnicodeDecodeError
  | TomlDecodeError

subsection \<open>Python integers as text\<close>

definition digit_char :: "nat \<Rightarrow> char" where
  "digit_char d = ''0123456789'' ! d"

text \<open>The decimal digits of a natural number, as \<^verbatim>\<open>str\<close> prints them.\<close>

fun str_nat :: "nat \<Rightarrow> string" where
  "str_nat n = (if n < 10 then [digit_char n] else str_nat (n div 10) @ [digit_char (n mod 10)])"

declare str_nat.simps [simp del]

definition str_int :: "int \<Rightarrow> string" where
  "str_int i = (if i < 0 then ''-'' @ str_nat (nat (- i)) else str_nat (nat i))"

text \<open>
  The format specification \<^verbatim>\<open>02\<close> of an f-string (\<^verbatim>\<open>f"{n:02}"\<close>) and C's
  \<^verbatim>\<open>%02d\<close> behind \<^verbatim>\<open>strftime\<close>: minimum width 2, padded with zeros between the sign
  and the digits; a longer number is printed in full.
\<close>

definition format_02 :: "int \<Rightarrow> string" where
  "format_02 i =
     (let sign = (if i < 0 then ''-'' else '''');
          digits = str_nat (nat \<bar>i\<bar>)
      in sign @ replicate (2 - length sign - length digits) (CHR ''0'') @ digits)"

text \<open>
  Two decimal digits, the way the specification writes \<^verbatim>\<open>HH\<close>, \<^verbatim>\<open>MM\<close> and \<^verbatim>\<open>SS\<close>
  (for a number below 100).
\<close>

definition two_digits :: "nat \<Rightarrow> string" where
  "two_digits n = [digit_char (n div 10), digit_char (n mod 10)]"

subsection \<open>The dictionary of callbacks\<close>

text \<open>
  A Python \<^verbatim>\<open>dict\<close> keeps its keys in insertion order, and \<^verbatim>\<open>values()\<close> iterates
  in that order: an association list. \<^verbatim>\<open>d[k] = v\<close> overwrites in place or appends;
  \<^verbatim>\<open>del d[k]\<close> raises \<^verbatim>\<open>KeyError\<close> when the key is absent.
\<close>

type_synonym ('k, 'v) dict = "('k \<times> 'v) list"

definition dict_setitem :: "'k \<Rightarrow> 'v \<Rightarrow> ('k, 'v) dict \<Rightarrow> ('k, 'v) dict" where
  "dict_setitem k v d = AList.update k v d"

definition dict_delitem :: "string \<Rightarrow> (string, 'v) dict \<Rightarrow> exn + (string, 'v) dict" where
  "dict_delitem k d = (if k \<in> fst ` set d then Inr (AList.delete k d) else Inl (KeyError k))"

definition dict_values :: "('k, 'v) dict \<Rightarrow> 'v list" where
  "dict_values d = map snd d"

definition dict_keys :: "('k, 'v) dict \<Rightarrow> 'k list" where
  "dict_keys d = map fst d"

subsection \<open>The clock\<close>

text \<open>The fields of \<^verbatim>\<open>datetime.now()\<close> that \<^verbatim>\<open>Clock.run\<close> reads.\<close>

record datetime =
  hour :: int
  minute :: int
  second :: int

definition valid_datetime :: "datetime \<Rightarrow> bool" where
  "valid_datetime now \<longleftrightarrow>
     0 \<le> hour now \<and> hour now < 24 \<and> 0 \<le> minute now \<and> minute now < 60 \<and>
     0 \<le> second now \<and> second now < 60"

text \<open>\<^verbatim>\<open>now.strftime("%H:%M:%S")\<close>\<close>

definition strftime_HMS :: "datetime \<Rightarrow> string" where
  "strftime_HMS now =
     format_02 (hour now) @ '':'' @ format_02 (minute now) @ '':'' @ format_02 (second now)"

text \<open>
  \<^verbatim>\<open>sec_remaining = (60 - now.second) % 60\<close> and
  \<^verbatim>\<open>min_remaining = (60 + (60 - now.second) // 60) - now.minute - 1\<close>; Python's
  \<^verbatim>\<open>//\<close> and \<^verbatim>\<open>%\<close> are \<open>div\<close> and \<open>mod\<close> on \<open>int\<close>.
\<close>

definition sec_remaining :: "datetime \<Rightarrow> int" where
  "sec_remaining now = (60 - second now) mod 60"

definition min_remaining :: "datetime \<Rightarrow> int" where
  "min_remaining now = (60 + (60 - second now) div 60) - minute now - 1"

text \<open>\<^verbatim>\<open>f"-{min_remaining:02}:{sec_remaining:02}"\<close>\<close>

definition remaining_str :: "datetime \<Rightarrow> string" where
  "remaining_str now =
     ''-'' @ format_02 (min_remaining now) @ '':'' @ format_02 (sec_remaining now)"

text \<open>
  The object: \<^verbatim>\<open>self.enabled\<close> and \<^verbatim>\<open>self.callbacks\<close>. A callback is an opaque value
  of type \<open>'cb\<close>; what the program does with one is call it, and a call is recorded as
  an event with the two keyword arguments it was given.
\<close>

record 'cb Clock =
  enabled :: bool
  callbacks :: "(string, 'cb) dict"

datatype 'cb call = Call (callee: 'cb) (current_time: string) (remaining: string)

text \<open>\<^verbatim>\<open>Clock.__init__\<close>\<close>

definition Clock_init :: "'cb Clock" where
  "Clock_init = \<lparr>enabled = True, callbacks = []\<rparr>"

definition add_callback :: "string \<Rightarrow> 'cb \<Rightarrow> 'cb Clock \<Rightarrow> 'cb Clock" where
  "add_callback name callback c = c\<lparr>callbacks := dict_setitem name callback (callbacks c)\<rparr>"

definition remove_callback :: "string \<Rightarrow> 'cb Clock \<Rightarrow> exn + 'cb Clock" where
  "remove_callback name c =
     (case dict_delitem name (callbacks c) of
        Inl e \<Rightarrow> Inl e
      | Inr d \<Rightarrow> Inr (c\<lparr>callbacks := d\<rparr>))"

text \<open>
  The \<^verbatim>\<open>for cb in self.callbacks.values()\<close> loop. A callback is foreign code and may
  raise; \<open>raises\<close> says which ones do. The loop has no handler, so the first callback
  that raises ends it: the result is the calls made, and whether the loop ran to its end.
\<close>

fun call_all :: "('cb \<Rightarrow> bool) \<Rightarrow> 'cb list \<Rightarrow> string \<Rightarrow> string \<Rightarrow> 'cb call list \<times> bool" where
  "call_all raises [] ct rm = ([], True)"
| "call_all raises (cb # cbs) ct rm =
     (if raises cb then ([Call cb ct rm], False)
      else (case call_all raises cbs ct rm of (tr, fin) \<Rightarrow> (Call cb ct rm # tr, fin)))"

text \<open>
  One pass through the body of \<^verbatim>\<open>while self.enabled\<close> in \<^verbatim>\<open>Clock.run\<close>, up to the
  \<^verbatim>\<open>time.sleep\<close>, during which no other thread touches the registry: \<open>now\<close> is what
  \<^verbatim>\<open>datetime.now()\<close> returned. The pass in general, with the Tk thread at work on the
  registry, is \<open>live_tick\<close> below.
\<close>

definition tick :: "('cb \<Rightarrow> bool) \<Rightarrow> datetime \<Rightarrow> 'cb Clock \<Rightarrow> 'cb call list \<times> bool" where
  "tick raises now c =
     call_all raises (dict_values (callbacks c)) (strftime_HMS now) (remaining_str now)"

text \<open>
  The same pass when the Tk thread registers and unregisters observers while the loop
  runs. \<^verbatim>\<open>add_callback\<close> and \<^verbatim>\<open>remove_callback\<close> take no lock, and the loop iterates the
  live view \<^verbatim>\<open>self.callbacks.values()\<close>, so a schedule fixes where the operations of the
  Tk thread fall between the steps of the iterator.

  The iterator of a dictionary view remembers the size of the dictionary at its creation
  and its own position. Each request for the next value first compares the sizes and
  raises \<^verbatim>\<open>RuntimeError\<close> (dictionary changed size during iteration) when they differ;
  nothing in \<^verbatim>\<open>run\<close> catches it, so the clock thread ends. A value stored under a key
  that exists is replaced in place, and the loop calls the new value if it has not passed
  the key yet. When keys were removed and added so that the size is the old one again,
  Python promises nothing (the loop may raise or go on over a changed table): the model
  records this as \<open>KeysChanged\<close> and follows the loop no further.
\<close>

datatype 'cb tk_op = TkAdd string 'cb | TkRemove string

datatype 'cb loop_action = Next | Tk "'cb tk_op"

datatype loop_end = LoopDone | CallbackRaised | ChangedSize | KeysChanged

record 'cb live_loop =
  registry :: "'cb Clock"
  pos :: nat
  used0 :: nat
  modified :: bool
  made :: "'cb call list"
  ended :: "loop_end option"
  tk_errors :: "exn list"

definition live_loop_init :: "'cb Clock \<Rightarrow> 'cb live_loop" where
  "live_loop_init c =
     \<lparr>registry = c, pos = 0, used0 = length (callbacks c), modified = False, made = [],
      ended = None, tk_errors = []\<rparr>"

text \<open>
  An operation of the Tk thread: \<^verbatim>\<open>add_callback(name, cb)\<close> or \<^verbatim>\<open>remove_callback(name)\<close>,
  whose \<^verbatim>\<open>KeyError\<close> is raised on the Tk thread.
\<close>

fun tk_apply :: "'cb tk_op \<Rightarrow> 'cb live_loop \<Rightarrow> 'cb live_loop" where
  "tk_apply (TkAdd name cb) s =
     s\<lparr>registry := add_callback name cb (registry s),
       modified := (modified s \<or> name \<notin> set (dict_keys (callbacks (registry s))))\<rparr>"
| "tk_apply (TkRemove name) s =
     (case remove_callback name (registry s) of
        Inl e \<Rightarrow> s\<lparr>tk_errors := tk_errors s @ [e]\<rparr>
      | Inr c \<Rightarrow> s\<lparr>registry := c, modified := True\<rparr>)"

text \<open>
  One round of the \<^verbatim>\<open>for\<close> loop: the iterator is asked for the next value and, if there
  is one, \<^verbatim>\<open>cb(current_time=..., remaining=...)\<close> is called.
\<close>

definition loop_next :: "('cb \<Rightarrow> bool) \<Rightarrow> string \<Rightarrow> string \<Rightarrow> 'cb live_loop \<Rightarrow> 'cb live_loop" where
  "loop_next raises ct rm s =
     (if ended s \<noteq> None then s
      else if length (callbacks (registry s)) \<noteq> used0 s then s\<lparr>ended := Some ChangedSize\<rparr>
      else if modified s then s\<lparr>ended := Some KeysChanged\<rparr>
      else if pos s < length (callbacks (registry s)) then
        s\<lparr>pos := pos s + 1,
          made := made s @ [Call (snd (callbacks (registry s) ! pos s)) ct rm],
          ended := (if raises (snd (callbacks (registry s) ! pos s))
                    then Some CallbackRaised else None)\<rparr>
      else s\<lparr>ended := Some LoopDone\<rparr>)"

fun loop_step ::
  "('cb \<Rightarrow> bool) \<Rightarrow> string \<Rightarrow> string \<Rightarrow> 'cb loop_action \<Rightarrow> 'cb live_loop \<Rightarrow> 'cb live_loop" where
  "loop_step raises ct rm Next s = loop_next raises ct rm s"
| "loop_step raises ct rm (Tk op) s = tk_apply op s"

text \<open>
  The pass under a schedule: the time is read and the two strings are made once, before
  the loop; then the schedule is followed.
\<close>

definition live_tick ::
  "('cb \<Rightarrow> bool) \<Rightarrow> datetime \<Rightarrow> 'cb loop_action list \<Rightarrow> 'cb Clock \<Rightarrow> 'cb live_loop" where
  "live_tick raises now sched c =
     fold (loop_step raises (strftime_HMS now) (remaining_str now)) sched (live_loop_init c)"

text \<open>
  What the specification calls the time left: the seconds from \<open>now\<close> to the next full
  hour, \<open>3600\<close> of them at \<^verbatim>\<open>HH:00:00\<close>. (A definition of the property, not of the code.)
\<close>

definition seconds_to_next_hour :: "datetime \<Rightarrow> int" where
  "seconds_to_next_hour now = 3600 - (60 * minute now + second now)"

subsection \<open>Paths\<close>

text \<open>
  \<^verbatim>\<open>Path(fname)\<close> on a POSIX system. \<^verbatim>\<open>pathlib\<close> first splits off the root: the leading
  slashes, kept as \<^verbatim>\<open>//\<close> when there are exactly two of them and as \<^verbatim>\<open>/\<close> otherwise.
  The rest is cut at every \<^verbatim>\<open>/\<close>, and empty components and \<^verbatim>\<open>.\<close> are dropped. So
  \<^verbatim>\<open>Path("sub//kick.wav")\<close> is the path \<^verbatim>\<open>sub/kick.wav\<close>.
\<close>

fun split_slash :: "string \<Rightarrow> string list" where
  "split_slash [] = [[]]"
| "split_slash (c # cs) =
     (if c = CHR ''/'' then [] # split_slash cs
      else (case split_slash cs of [] \<Rightarrow> [[c]] | p # ps \<Rightarrow> (c # p) # ps))"

definition path_parts :: "string \<Rightarrow> string list" where
  "path_parts fname = filter (\<lambda>x. x \<noteq> [] \<and> x \<noteq> ''.'') (split_slash fname)"

definition splitroot :: "string \<Rightarrow> string \<times> string" where
  "splitroot part =
     (let stripped = dropWhile (\<lambda>c. c = CHR ''/'') part;
          n = length part - length stripped
      in if n = 0 then ([], part) else if n = 2 then (''//'', stripped) else (''/'', stripped))"

record pure_path =
  path_root :: string
  path_components :: "string list"

definition Path :: "string \<Rightarrow> pure_path" where
  "Path fname =
     (case splitroot fname of
        (root, rel) \<Rightarrow> \<lparr>path_root = root, path_components = path_parts rel\<rparr>)"

text \<open>
  \<^verbatim>\<open>Path(fname).name\<close>: the last component, or the empty string when there is none.
\<close>

definition path_name :: "string \<Rightarrow> string" where
  "path_name fname = (case rev (path_components (Path fname)) of [] \<Rightarrow> [] | x # _ \<Rightarrow> x)"

subsection \<open>The playback unit\<close>

text \<open>
  What \<^verbatim>\<open>PyCartAudio.__init__\<close> asks of the world: the files that \<^verbatim>\<open>open\<close> can read
  (a path that is missing, a directory or unreadable maps to \<open>None\<close>), what the header
  tests of \<^verbatim>\<open>sndhdr\<close> make of a file's content (\<open>Inr None\<close>: not recognised), and what
  \<^verbatim>\<open>simpleaudio\<close> decodes from it. The header information \<open>'i\<close> and the wave object
  \<open>'w\<close> are opaque.
\<close>

record ('i, 'w) audio_env =
  fs :: "string \<Rightarrow> string option"
  snd_tests :: "string \<Rightarrow> exn + 'i option"
  wave_decode :: "string \<Rightarrow> exn + 'w"

text \<open>
  \<^verbatim>\<open>sndhdr.whathdr(fname)\<close>: ``If the file doesn't have a recognizable type, it returns
  None. If the file can't be opened, OSError is raised.''
\<close>

definition whathdr :: "('i, 'w) audio_env \<Rightarrow> string \<Rightarrow> exn + 'i option" where
  "whathdr env fname =
     (case fs env fname of None \<Rightarrow> Inl (OSError fname) | Some content \<Rightarrow> snd_tests env content)"

text \<open>\<^verbatim>\<open>sa.WaveObject.from_wave_file(fname)\<close>\<close>

definition from_wave_file :: "('i, 'w) audio_env \<Rightarrow> string \<Rightarrow> exn + 'w" where
  "from_wave_file env fname =
     (case fs env fname of None \<Rightarrow> Inl (OSError fname) | Some content \<Rightarrow> wave_decode env content)"

record ('i, 'w, 'cb) PyCartAudio =
  info :: 'i
  wav :: 'w
  start_callback :: 'cb
  stop_callback :: 'cb
  audio_file :: pure_path

definition not_valid_message :: "string \<Rightarrow> string" where
  "not_valid_message fname = ''Could not load file '' @ fname @ ''. Not a valid audio file.''"

text \<open>
  \<^verbatim>\<open>PyCartAudio.__init__\<close>. A \<^verbatim>\<open>SndHeaders\<close> tuple is never falsy, so
  \<^verbatim>\<open>if not self.info\<close> is the test for \<^verbatim>\<open>None\<close>. The library calls get the string
  \<^verbatim>\<open>fname\<close>; the object keeps \<^verbatim>\<open>Path(fname)\<close>.
\<close>

definition PyCartAudio_init ::
  "('i, 'w) audio_env \<Rightarrow> string \<Rightarrow> 'cb \<Rightarrow> 'cb \<Rightarrow> exn + ('i, 'w, 'cb) PyCartAudio" where
  "PyCartAudio_init env fname on_start on_stop =
     (case whathdr env fname of
        Inl e \<Rightarrow> Inl e
      | Inr None \<Rightarrow> Inl (PyCartError (not_valid_message fname))
      | Inr (Some i) \<Rightarrow>
          (case from_wave_file env fname of
             Inl e \<Rightarrow> Inl e
           | Inr w \<Rightarrow>
               Inr \<lparr>info = i, wav = w, start_callback = on_start, stop_callback = on_stop,
                    audio_file = Path fname\<rparr>))"

text \<open>
  \<^verbatim>\<open>PyCartAudio.run\<close>, the body of the thread that \<^verbatim>\<open>start\<close> spawns, one statement at
  a time. The events are what the thread does to the world: it calls a callback, audio
  output begins (\<^verbatim>\<open>self.wav.play()\<close> has returned a play object), and the sample has
  been played to its end (\<^verbatim>\<open>play_obj.wait_done()\<close> has returned).
\<close>

datatype run_pc = AtStartCallback | AtPlay | AtWaitDone | AtStopCallback | RunReturned | RunRaised

datatype 'cb audio_event = Called 'cb | PlayBegin | PlayDone

text \<open>
  One statement of \<^verbatim>\<open>run\<close>; \<open>fails\<close> says that the call made by this statement
  raises. A callback that raises has been called; a \<^verbatim>\<open>play()\<close> that raises has not
  begun any output. Nothing in \<^verbatim>\<open>run\<close> catches an exception: the thread ends.
\<close>

fun run_step ::
  "bool \<Rightarrow> ('i, 'w, 'cb) PyCartAudio \<Rightarrow> run_pc \<Rightarrow> 'cb audio_event list \<times> run_pc" where
  "run_step fails a AtStartCallback =
     ([Called (start_callback a)], if fails then RunRaised else AtPlay)"
| "run_step fails a AtPlay = (if fails then ([], RunRaised) else ([PlayBegin], AtWaitDone))"
| "run_step fails a AtWaitDone = (if fails then ([], RunRaised) else ([PlayDone], AtStopCallback))"
| "run_step fails a AtStopCallback =
     ([Called (stop_callback a)], if fails then RunRaised else RunReturned)"
| "run_step fails a RunReturned = ([], RunReturned)"
| "run_step fails a RunRaised = ([], RunRaised)"

text \<open>
  The whole of \<^verbatim>\<open>run\<close>: its four statements in order, \<open>fails\<close> telling for each
  program point whether the call made there raises. The result is everything the thread
  did and how it ended.
\<close>

fun run_from ::
  "nat \<Rightarrow> (run_pc \<Rightarrow> bool) \<Rightarrow> ('i, 'w, 'cb) PyCartAudio \<Rightarrow> run_pc \<Rightarrow> 'cb audio_event list \<times> run_pc" where
  "run_from 0 fails a pc = ([], pc)"
| "run_from (Suc n) fails a pc =
     (case run_step (fails pc) a pc of
        (evs, pc') \<Rightarrow> (case run_from n fails a pc' of (evs', pc'') \<Rightarrow> (evs @ evs', pc'')))"

definition run :: "(run_pc \<Rightarrow> bool) \<Rightarrow> ('i, 'w, 'cb) PyCartAudio \<Rightarrow> 'cb audio_event list \<times> run_pc" where
  "run fails a = run_from 4 fails a AtStartCallback"

text \<open>\<open>n\<close> plays of the same sample, one after the other, each of them without a failure.\<close>

fun plays :: "nat \<Rightarrow> ('i, 'w, 'cb) PyCartAudio \<Rightarrow> 'cb audio_event list" where
  "plays 0 a = []"
| "plays (Suc n) a = fst (run (\<lambda>_. False) a) @ plays n a"

subsection \<open>The pad\<close>

text \<open>
  A \<^verbatim>\<open>PyCartButton\<close>: \<^verbatim>\<open>self._id\<close>, \<^verbatim>\<open>self._file\<close>, \<^verbatim>\<open>self._default_bg\<close>, and the
  three options of the Tk widget that the class configures (\<^verbatim>\<open>text\<close>, \<^verbatim>\<open>bg\<close>,
  \<^verbatim>\<open>state\<close>). The callbacks a pad hands to its playback unit are its own bound methods
  \<^verbatim>\<open>self._on_start\<close> and \<^verbatim>\<open>self._on_stop\<close>.
\<close>

datatype tk_state = NORMAL | DISABLED

datatype button_method = On_start | On_stop

record ('i, 'w) PyCartButton =
  pad_id :: int
  pad_file :: "('i, 'w, button_method) PyCartAudio option"
  default_bg :: string
  cfg_text :: string
  cfg_bg :: string
  cfg_state :: tk_state

text \<open>
  \<^verbatim>\<open>PyCartButton.__init__\<close>; \<open>bg0\<close> is the background the new widget has
  (\<^verbatim>\<open>self.cget("bg")\<close>).
\<close>

definition PyCartButton_init :: "int \<Rightarrow> string \<Rightarrow> ('i, 'w) PyCartButton" where
  "PyCartButton_init i bg0 =
     \<lparr>pad_id = i, pad_file = None, default_bg = bg0, cfg_text = str_int i, cfg_bg = bg0,
      cfg_state = NORMAL\<rparr>"

text \<open>
  \<^verbatim>\<open>do_load\<close>. The result is the pad afterwards, the message boxes shown
  (\<^verbatim>\<open>messagebox.showerror(title, message)\<close>) and the exception that leaves the method,
  if one does: \<^verbatim>\<open>except PyCartError\<close> catches no other class.
\<close>

definition do_load ::
  "('i, 'w) audio_env \<Rightarrow> string \<Rightarrow> ('i, 'w) PyCartButton \<Rightarrow>
   ('i, 'w) PyCartButton \<times> (string \<times> string) list \<times> exn option" where
  "do_load env fname b =
     (case PyCartAudio_init env fname On_start On_stop of
        Inl e \<Rightarrow>
          (case e of
             PyCartError msg \<Rightarrow> (b, [(''Error'', msg)], None)
           | _ \<Rightarrow> (b, [], Some e))
      | Inr a \<Rightarrow>
          (b\<lparr>pad_file := Some a, cfg_text := path_name fname, cfg_bg := ''green''\<rparr>, [], None))"

text \<open>
  \<^verbatim>\<open>play\<close>: what it does to the world, in order. \<^verbatim>\<open>self._file.start()\<close> creates a
  thread that will execute \<^verbatim>\<open>run\<close>. A \<^verbatim>\<open>PyCartAudio\<close> object is always truthy, so
  \<^verbatim>\<open>if self._file\<close> is the test for \<^verbatim>\<open>None\<close>.
\<close>

datatype ('i, 'w) play_effect =
    Printed "('i, 'w, button_method) PyCartAudio"
  | Started "('i, 'w, button_method) PyCartAudio"

definition play :: "('i, 'w) PyCartButton \<Rightarrow> ('i, 'w) play_effect list" where
  "play b = (case pad_file b of None \<Rightarrow> [] | Some a \<Rightarrow> [Printed a, Started a])"

definition on_click :: "('i, 'w) PyCartButton \<Rightarrow> ('i, 'w) play_effect list" where
  "on_click b = (if cfg_state b = DISABLED then [] else play b)"

text \<open>\<^verbatim>\<open>reset\<close>; Tk shows the integer \<^verbatim>\<open>self._id\<close> as its decimal text.\<close>

definition reset :: "('i, 'w) PyCartButton \<Rightarrow> ('i, 'w) PyCartButton" where
  "reset b = b\<lparr>pad_file := None, cfg_text := str_int (pad_id b), cfg_bg := default_bg b\<rparr>"

definition on_start :: "('i, 'w) PyCartButton \<Rightarrow> ('i, 'w) PyCartButton" where
  "on_start b = b\<lparr>cfg_state := DISABLED, cfg_bg := ''red''\<rparr>"

definition on_stop :: "('i, 'w) PyCartButton \<Rightarrow> ('i, 'w) PyCartButton" where
  "on_stop b = b\<lparr>cfg_state := NORMAL, cfg_bg := ''green''\<rparr>"

text \<open>
  The three appearances the specification names. They are read off the widget's options:
  the class stores no state of its own besides \<^verbatim>\<open>self._file\<close>.
\<close>

definition shows_idle :: "('i, 'w) PyCartButton \<Rightarrow> bool" where
  "shows_idle b \<longleftrightarrow> cfg_bg b = default_bg b \<and> cfg_text b = str_int (pad_id b)"

definition shows_loaded :: "('i, 'w) PyCartButton \<Rightarrow> bool" where
  "shows_loaded b \<longleftrightarrow> cfg_bg b = ''green''"

definition shows_playing :: "('i, 'w) PyCartButton \<Rightarrow> bool" where
  "shows_playing b \<longleftrightarrow> cfg_bg b = ''red''"

text \<open>
  A path is a valid audio path when both library calls of \<^verbatim>\<open>PyCartAudio.__init__\<close>
  accept it.
\<close>

definition valid_audio_path :: "('i, 'w) audio_env \<Rightarrow> string \<Rightarrow> bool" where
  "valid_audio_path env fname \<longleftrightarrow>
     (case whathdr env fname of
        Inr (Some i) \<Rightarrow> (case from_wave_file env fname of Inr w \<Rightarrow> True | Inl e \<Rightarrow> False)
      | _ \<Rightarrow> False)"

subsection \<open>A pad and its playback threads\<close>

text \<open>
  One pad together with the threads its \<^verbatim>\<open>play\<close> has started. The user's operations
  (the menu entries Load, Play and Reset, and a click) run on the Tk thread, one at a
  time; a playback thread advances by one statement of \<^verbatim>\<open>run\<close> whenever it is
  scheduled, so the schedule fixes how the threads interleave with the operations. The
  callbacks a thread calls are the pad's methods; they change the pad the moment they are
  called. An exception that leaves an operation is reported by Tk's main loop, which goes
  on; it is kept in \<open>uncaught\<close>. In this system no call made by a playback thread raises.
\<close>

record ('i, 'w) pad_sys =
  pad :: "('i, 'w) PyCartButton"
  units :: "(('i, 'w, button_method) PyCartAudio \<times> run_pc) list"
  shown :: "(string \<times> string) list"
  uncaught :: "exn list"

datatype pad_action = Load string | Play | Click | Reset | Advance nat

definition pad_sys_init :: "int \<Rightarrow> string \<Rightarrow> ('i, 'w) pad_sys" where
  "pad_sys_init i bg0 = \<lparr>pad = PyCartButton_init i bg0, units = [], shown = [], uncaught = []\<rparr>"

fun started_units ::
  "('i, 'w) play_effect list \<Rightarrow> (('i, 'w, button_method) PyCartAudio \<times> run_pc) list" where
  "started_units [] = []"
| "started_units (Printed a # es) = started_units es"
| "started_units (Started a # es) = (a, AtStartCallback) # started_units es"

fun apply_event :: "button_method audio_event \<Rightarrow> ('i, 'w) PyCartButton \<Rightarrow> ('i, 'w) PyCartButton" where
  "apply_event (Called On_start) b = on_start b"
| "apply_event (Called On_stop) b = on_stop b"
| "apply_event PlayBegin b = b"
| "apply_event PlayDone b = b"

fun pad_step :: "('i, 'w) audio_env \<Rightarrow> pad_action \<Rightarrow> ('i, 'w) pad_sys \<Rightarrow> ('i, 'w) pad_sys" where
  "pad_step env (Load fname) s =
     (case do_load env fname (pad s) of
        (b, dialogs, raised) \<Rightarrow>
          s\<lparr>pad := b, shown := shown s @ dialogs,
            uncaught := uncaught s @ (case raised of None \<Rightarrow> [] | Some e \<Rightarrow> [e])\<rparr>)"
| "pad_step env Play s = s\<lparr>units := units s @ started_units (play (pad s))\<rparr>"
| "pad_step env Click s = s\<lparr>units := units s @ started_units (on_click (pad s))\<rparr>"
| "pad_step env Reset s = s\<lparr>pad := reset (pad s)\<rparr>"
| "pad_step env (Advance i) s =
     (if i < length (units s) then
        (case units s ! i of
           (a, pc) \<Rightarrow>
             (case run_step False a pc of
                (evs, pc') \<Rightarrow>
                  s\<lparr>pad := fold apply_event evs (pad s), units := (units s)[i := (a, pc')]\<rparr>))
      else s)"

definition pad_exec ::
  "('i, 'w) audio_env \<Rightarrow> pad_action list \<Rightarrow> ('i, 'w) pad_sys \<Rightarrow> ('i, 'w) pad_sys" where
  "pad_exec env acts s = fold (pad_step env) acts s"

text \<open>
  The consistency that the specification asks of a pad: without a sample it looks idle,
  and it looks loaded or playing only with a sample.
\<close>

definition pad_consistent :: "('i, 'w) PyCartButton \<Rightarrow> bool" where
  "pad_consistent b \<longleftrightarrow>
     (pad_file b = None \<longrightarrow> shows_idle b) \<and>
     (shows_loaded b \<or> shows_playing b \<longrightarrow> pad_file b \<noteq> None)"

text \<open>
  A playback thread is over when \<^verbatim>\<open>run\<close> has returned or raised. A schedule has quiet
  resets when every Reset in it happens while no playback thread of the pad is running.
\<close>

fun unit_over :: "run_pc \<Rightarrow> bool" where
  "unit_over RunReturned = True"
| "unit_over RunRaised = True"
| "unit_over AtStartCallback = False"
| "unit_over AtPlay = False"
| "unit_over AtWaitDone = False"
| "unit_over AtStopCallback = False"

fun quiet_resets :: "('i, 'w) audio_env \<Rightarrow> pad_action list \<Rightarrow> ('i, 'w) pad_sys \<Rightarrow> bool" where
  "quiet_resets env [] s = True"
| "quiet_resets env (a # acts) s =
     ((a = Reset \<longrightarrow> list_all (\<lambda>u. unit_over (snd u)) (units s)) \<and>
      quiet_resets env acts (pad_step env a s))"

text \<open>
  The invariant of a pad and its threads under schedules with quiet resets. The widget's
  own background is taken to be neither of the two signal colours.
\<close>

definition pad_inv :: "('i, 'w) pad_sys \<Rightarrow> bool" where
  "pad_inv s \<longleftrightarrow>
     default_bg (pad s) \<noteq> ''green'' \<and> default_bg (pad s) \<noteq> ''red'' \<and>
     pad_consistent (pad s) \<and>
     (pad_file (pad s) = None \<longrightarrow> list_all (\<lambda>u. unit_over (snd u)) (units s))"

subsection \<open>The clock thread and \<^verbatim>\<open>stop\<close>\<close>

text \<open>
  \<^verbatim>\<open>Clock\<close> is a \<^verbatim>\<open>Thread\<close> whose \<^verbatim>\<open>run\<close> loops while \<^verbatim>\<open>self.enabled\<close>; \<^verbatim>\<open>stop\<close>
  runs on the caller's thread. Both are small-step machines over one shared state.

  The clock thread is at the test of the \<^verbatim>\<open>while\<close>, inside the \<^verbatim>\<open>for\<close> loop (with the
  callbacks still to be called and the two strings of this tick), or in \<^verbatim>\<open>time.sleep\<close>.
  A \<^verbatim>\<open>Thread\<close> object has not been started, is alive, or has ended; it ends when
  \<^verbatim>\<open>run\<close> returns or an exception leaves it.

  \<^verbatim>\<open>stop\<close> is two statements: \<^verbatim>\<open>self.enabled = False\<close>, then \<^verbatim>\<open>self.join()\<close>.
  \<^verbatim>\<open>Thread.join\<close> without a timeout returns once the thread has ended, waits while it is
  alive, and raises \<^verbatim>\<open>RuntimeError\<close> for a thread that was never started.

  The registry is not changed while this system runs.
\<close>

datatype 'cb loop_pc = AtWhile | InFor "'cb list" string string | AtSleep

datatype 'cb thread_state = Unstarted | Alive "'cb loop_pc" | Ended

datatype stop_pc = StopNotCalled | StopAtJoin | StopReturned | StopRaised exn

text \<open>
  The history of a run, for stating what happened after what: a tick began (the \<^verbatim>\<open>while\<close>
  test passed and the time was read), a callback was called, \<^verbatim>\<open>stop\<close> cleared
  \<^verbatim>\<open>self.enabled\<close>, \<^verbatim>\<open>stop\<close> returned from \<^verbatim>\<open>join\<close>.
\<close>

datatype 'cb clock_event = TickBegan | Invoked "'cb call" | Disabled | Joined

record 'cb clock_sys =
  clock :: "'cb Clock"
  thread :: "'cb thread_state"
  stopper :: stop_pc
  history :: "'cb clock_event list"

text \<open>
  The schedule: \<^verbatim>\<open>clock.start()\<close>; one step of the clock thread, given what
  \<^verbatim>\<open>datetime.now()\<close> returns if the step reads the time and whether the callback raises
  if the step calls one; one step of \<^verbatim>\<open>stop\<close>.
\<close>

datatype clock_action = ThreadStart | ThreadStep datetime bool | StopStep

definition clock_sys_init :: "(string, 'cb) dict \<Rightarrow> 'cb clock_sys" where
  "clock_sys_init d =
     \<lparr>clock = \<lparr>enabled = True, callbacks = d\<rparr>, thread = Unstarted, stopper = StopNotCalled,
      history = []\<rparr>"

fun thread_step :: "datetime \<Rightarrow> bool \<Rightarrow> 'cb clock_sys \<Rightarrow> 'cb clock_sys" where
  "thread_step now fails s =
     (case thread s of
        Unstarted \<Rightarrow> s
      | Ended \<Rightarrow> s
      | Alive AtWhile \<Rightarrow>
          (if enabled (clock s)
           then s\<lparr>thread :=
                  Alive (InFor (dict_values (callbacks (clock s))) (strftime_HMS now)
                               (remaining_str now)),
                  history := history s @ [TickBegan]\<rparr>
           else s\<lparr>thread := Ended\<rparr>)
      | Alive (InFor [] ct rm) \<Rightarrow> s\<lparr>thread := Alive AtSleep\<rparr>
      | Alive (InFor (cb # cbs) ct rm) \<Rightarrow>
          s\<lparr>thread := (if fails then Ended else Alive (InFor cbs ct rm)),
            history := history s @ [Invoked (Call cb ct rm)]\<rparr>
      | Alive AtSleep \<Rightarrow> s\<lparr>thread := Alive AtWhile\<rparr>)"

fun stop_step :: "'cb clock_sys \<Rightarrow> 'cb clock_sys" where
  "stop_step s =
     (case stopper s of
        StopNotCalled \<Rightarrow>
          s\<lparr>clock := (clock s)\<lparr>enabled := False\<rparr>, stopper := StopAtJoin,
            history := history s @ [Disabled]\<rparr>
      | StopAtJoin \<Rightarrow>
          (case thread s of
             Unstarted \<Rightarrow> s\<lparr>stopper := StopRaised RuntimeError\<rparr>
           | Alive pc \<Rightarrow> s
           | Ended \<Rightarrow> s\<lparr>stopper := StopReturned, history := history s @ [Joined]\<rparr>)
      | StopReturned \<Rightarrow> s
      | StopRaised e \<Rightarrow> s)"

fun clock_step :: "clock_action \<Rightarrow> 'cb clock_sys \<Rightarrow> 'cb clock_sys" where
  "clock_step ThreadStart s = (case thread s of Unstarted \<Rightarrow> s\<lparr>thread := Alive AtWhile\<rparr> | _ \<Rightarrow> s)"
| "clock_step (ThreadStep now fails) s = thread_step now fails s"
| "clock_step StopStep s = stop_step s"

definition clock_exec :: "clock_action list \<Rightarrow> 'cb clock_sys \<Rightarrow> 'cb clock_sys" where
  "clock_exec acts s = fold clock_step acts s"

text \<open>
  The state a schedule leads to, from a new clock object that holds the registry \<open>d\<close> and
  whose thread has not been started.
\<close>

definition clock_run :: "(string, 'cb) dict \<Rightarrow> clock_action list \<Rightarrow> 'cb clock_sys" where
  "clock_run d sched = clock_exec sched (clock_sys_init d)"

text \<open>
  What a history records from the first occurrence of the event \<open>ev\<close> on, and the
  callback calls among that.
\<close>

fun is_Invoked :: "'cb clock_event \<Rightarrow> bool" where
  "is_Invoked (Invoked c) = True"
| "is_Invoked TickBegan = False"
| "is_Invoked Disabled = False"
| "is_Invoked Joined = False"

definition events_after :: "'cb clock_event \<Rightarrow> 'cb clock_event list \<Rightarrow> 'cb clock_event list" where
  "events_after ev h = dropWhile (\<lambda>e. e \<noteq> ev) h"

definition calls_after :: "'cb clock_event \<Rightarrow> 'cb clock_event list \<Rightarrow> 'cb clock_event list" where
  "calls_after ev h = filter is_Invoked (events_after ev h)"

text \<open>
  Two measures on the clock thread, for the proofs: the callbacks the current tick has
  still to call, and a bound on the steps the thread takes before it ends once
  \<^verbatim>\<open>self.enabled\<close> is false.
\<close>

fun pending :: "'cb thread_state \<Rightarrow> nat" where
  "pending (Alive (InFor rest ct rm)) = length rest"
| "pending (Alive AtWhile) = 0"
| "pending (Alive AtSleep) = 0"
| "pending Unstarted = 0"
| "pending Ended = 0"

fun steps_left :: "'cb thread_state \<Rightarrow> nat" where
  "steps_left (Alive (InFor rest ct rm)) = length rest + 3"
| "steps_left (Alive AtSleep) = 2"
| "steps_left (Alive AtWhile) = 1"
| "steps_left Unstarted = 0"
| "steps_left Ended = 0"

text \<open>
  The invariant of the system of the clock thread and \<^verbatim>\<open>stop\<close>, in a run that started
  with the registry \<open>d\<close>.
\<close>

definition clock_inv :: "(string, 'cb) dict \<Rightarrow> 'cb clock_sys \<Rightarrow> bool" where
  "clock_inv d s \<longleftrightarrow>
     callbacks (clock s) = d \<and>
     (enabled (clock s) \<longleftrightarrow> stopper s = StopNotCalled) \<and>
     (Disabled \<in> set (history s) \<longleftrightarrow> stopper s \<noteq> StopNotCalled) \<and>
     (Joined \<in> set (history s) \<longleftrightarrow> stopper s = StopReturned) \<and>
     (stopper s = StopReturned \<longrightarrow> thread s = Ended) \<and>
     pending (thread s) \<le> length d \<and>
     events_after Joined (history s) = (if stopper s = StopReturned then [Joined] else []) \<and>
     TickBegan \<notin> set (events_after Disabled (history s)) \<and>
     length (calls_after Disabled (history s)) + pending (thread s) \<le> length d"

subsection \<open>Loading a configuration\<close>

text \<open>
  \<^verbatim>\<open>encodings.normalize_encoding\<close>, the function by which Python's codec registry turns
  an encoding name into the name of a codec module: every run of characters that are
  neither alphanumeric nor a dot becomes one underscore, except at the two ends.
  Encoding names are ASCII.
\<close>

definition is_alnum :: "char \<Rightarrow> bool" where
  "is_alnum c \<longleftrightarrow>
     c \<in> set ''abcdefghijklmnopqrstuvwxyzABCDEFGHIJKLMNOPQRSTUVWXYZ0123456789''"

fun normalize_chars :: "bool \<Rightarrow> string \<Rightarrow> string \<Rightarrow> string" where
  "normalize_chars punct chars [] = chars"
| "normalize_chars punct chars (c # cs) =
     (if is_alnum c \<or> c = CHR ''.''
      then normalize_chars False ((if punct \<and> chars \<noteq> [] then chars @ ''_'' else chars) @ [c]) cs
      else normalize_chars True chars cs)"

definition normalize_encoding :: "string \<Rightarrow> string" where
  "normalize_encoding encoding = normalize_chars False [] encoding"

text \<open>
  What \<^verbatim>\<open>load_conf\<close> asks of the world: the files that \<^verbatim>\<open>open\<close> can read, the codec
  modules of the installation by their normalized names (each with its strict decoder),
  and \<^verbatim>\<open>toml.loads\<close>. The parsed document \<open>'conf\<close> is opaque.
\<close>

record 'conf conf_env =
  conf_fs :: "string \<Rightarrow> string option"
  codec_modules :: "string \<Rightarrow> (string \<Rightarrow> exn + string) option"
  toml_loads :: "string \<Rightarrow> exn + 'conf"

text \<open>\<^verbatim>\<open>content.decode(encoding)\<close>: an unknown encoding raises \<^verbatim>\<open>LookupError\<close>.\<close>

definition bytes_decode :: "'conf conf_env \<Rightarrow> string \<Rightarrow> string \<Rightarrow> exn + string" where
  "bytes_decode env encoding content =
     (case codec_modules env (normalize_encoding encoding) of
        None \<Rightarrow> Inl (LookupError encoding)
      | Some decoder \<Rightarrow> decoder content)"

text \<open>
  \<^verbatim>\<open>load_conf\<close>:
  \<^verbatim>\<open>with open(filename, "rb") as fp: return toml.loads(fp.read().decode("utf=8"))\<close>
\<close>

definition load_conf :: "'conf conf_env \<Rightarrow> string \<Rightarrow> exn + 'conf" where
  "load_conf env filename =
     (case conf_fs env filename of
        None \<Rightarrow> Inl (OSError filename)
      | Some content \<Rightarrow>
          (case bytes_decode env ''utf=8'' content of
             Inl e \<Rightarrow> Inl e
           | Inr txt \<Rightarrow> toml_loads env txt))"

section \<open>Properties\<close>

subsection \<open>Numbers as text\<close>

lemma digit_char_0: "digit_char 0 = CHR ''0''"
  by (simp add: digit_char_def)

lemma str_nat_small: "n < 10 \<Longrightarrow> str_nat n = [digit_char n]"
  by (simp add: str_nat.simps)

lemma str_nat_two:
  "10 \<le> n \<Longrightarrow> n < 100 \<Longrightarrow> str_nat n = [digit_char (n div 10), digit_char (n mod 10)]"
  by (subst str_nat.simps) (simp add: str_nat_small)

lemma format_02_two_digits:
  assumes "0 \<le> i" and "i < 100"
  shows "format_02 i = two_digits (nat i)"
proof (cases "nat i < 10")
  case True
  with assms show ?thesis
    by (simp add: format_02_def two_digits_def str_nat_small digit_char_0)
next
  case False
  with assms have "10 \<le> nat i" "nat i < 100" by auto
  with assms show ?thesis
    by (simp add: format_02_def two_digits_def str_nat_two)
qed

subsection \<open>The strings of a tick\<close>

lemma seconds_to_next_hour_split:
  "seconds_to_next_hour now = (60 - second now) + (59 - minute now) * 60"
  by (simp add: seconds_to_next_hour_def)

lemma sec_remaining_eq: "sec_remaining now = seconds_to_next_hour now mod 60"
  by (simp only: seconds_to_next_hour_split sec_remaining_def mod_mult_self1)

lemma min_remaining_eq: "min_remaining now = seconds_to_next_hour now div 60"
proof -
  have "seconds_to_next_hour now div 60 = (60 - second now) div 60 + (59 - minute now)"
    by (simp only: seconds_to_next_hour_split) simp
  then show ?thesis by (simp add: min_remaining_def)
qed

lemma min_remaining_range:
  assumes "valid_datetime now"
  shows "0 \<le> min_remaining now \<and> min_remaining now \<le> 60"
proof -
  from assms have s: "0 < 60 - second now" "60 - second now \<le> 60"
    and m: "0 \<le> minute now" "minute now < 60"
    by (simp_all add: valid_datetime_def)
  from s have "0 \<le> (60 - second now) div 60" by simp
  moreover from s have "(60 - second now) div 60 \<le> 1"
    using zdiv_mono1 [of "60 - second now" 60 60] by simp
  ultimately show ?thesis using m by (simp add: min_remaining_def)
qed

lemma sec_remaining_range: "0 \<le> sec_remaining now \<and> sec_remaining now < 60"
  by (simp add: sec_remaining_def)

lemma strftime_HMS_two_digits:
  "valid_datetime now \<Longrightarrow>
   strftime_HMS now =
     two_digits (nat (hour now)) @ '':'' @ two_digits (nat (minute now)) @ '':'' @
     two_digits (nat (second now))"
  by (simp add: valid_datetime_def strftime_HMS_def format_02_two_digits)

lemma remaining_str_two_digits:
  assumes "valid_datetime now"
  shows "remaining_str now =
     ''-'' @ two_digits (nat (seconds_to_next_hour now div 60)) @ '':'' @
     two_digits (nat (seconds_to_next_hour now mod 60))"
proof -
  have "format_02 (min_remaining now) = two_digits (nat (min_remaining now))"
    using min_remaining_range [OF assms] by (intro format_02_two_digits) auto
  moreover have "format_02 (sec_remaining now) = two_digits (nat (sec_remaining now))"
    using sec_remaining_range [of now] by (intro format_02_two_digits) auto
  ultimately show ?thesis
    by (simp add: remaining_str_def min_remaining_eq sec_remaining_eq)
qed

lemma remaining_str_at_minute:
  assumes "valid_datetime now" and "second now = 0"
  shows "remaining_str now = ''-'' @ two_digits (nat (60 - minute now)) @ '':00''"
proof -
  from assms have "min_remaining now = 60 - minute now" "sec_remaining now = 0"
    by (simp_all add: min_remaining_def sec_remaining_def)
  moreover from assms have "0 \<le> 60 - minute now" "60 - minute now < 100"
    by (simp_all add: valid_datetime_def)
  ultimately show ?thesis
    by (simp add: remaining_str_def format_02_two_digits)
       (simp add: two_digits_def digit_char_def)
qed

lemmas clock_string_defs =
  strftime_HMS_def remaining_str_def format_02_def min_remaining_def sec_remaining_def
  str_nat.simps digit_char_def

lemma strings_at_14_59_47:
  "strftime_HMS \<lparr>hour = 14, minute = 59, second = 47\<rparr> = ''14:59:47''"
  "remaining_str \<lparr>hour = 14, minute = 59, second = 47\<rparr> = ''-00:13''"
  by (simp_all add: clock_string_defs)

subsection \<open>The calls of a tick\<close>

lemma call_all_args:
  "e \<in> set (fst (call_all raises cbs ct rm)) \<Longrightarrow>
   current_time e = ct \<and> remaining e = rm \<and> callee e \<in> set cbs"
  by (induction cbs) (auto split: if_splits prod.splits)

lemma call_all_no_raise:
  "\<forall>cb \<in> set cbs. \<not> raises cb \<Longrightarrow>
   call_all raises cbs ct rm = (map (\<lambda>cb. Call cb ct rm) cbs, True)"
  by (induction cbs) auto

text \<open>
  C1 (as amended): every call of a tick gets the time of day as \<^verbatim>\<open>HH:MM:SS\<close> and a
  countdown \<^verbatim>\<open>-MM:SS\<close> whose minutes and seconds are the time left to the next full
  hour; at 14:59:47 the strings are \<^verbatim>\<open>14:59:47\<close> and \<^verbatim>\<open>-00:13\<close>, and at a full minute
  the countdown is the number of minutes left in the hour, followed by \<^verbatim>\<open>:00\<close>. When no
  observer raises, every registered observer gets such a call.
\<close>

theorem tick_strings:
  assumes "valid_datetime now"
  shows "(\<forall>e \<in> set (fst (tick raises now c)).
            current_time e =
              two_digits (nat (hour now)) @ '':'' @ two_digits (nat (minute now)) @ '':'' @
              two_digits (nat (second now)) \<and>
            remaining e =
              ''-'' @ two_digits (nat (seconds_to_next_hour now div 60)) @ '':'' @
              two_digits (nat (seconds_to_next_hour now mod 60)) \<and>
            (hour now = 14 \<and> minute now = 59 \<and> second now = 47 \<longrightarrow>
               current_time e = ''14:59:47'' \<and> remaining e = ''-00:13'') \<and>
            (second now = 0 \<longrightarrow>
               remaining e = ''-'' @ two_digits (nat (60 - minute now)) @ '':00'')) \<and>
         ((\<forall>cb \<in> set (dict_values (callbacks c)). \<not> raises cb) \<longrightarrow>
            (\<forall>cb \<in> set (dict_values (callbacks c)).
               Call cb (strftime_HMS now) (remaining_str now) \<in> set (fst (tick raises now c))))"
proof (intro conjI ballI impI)
  fix e
  assume "e \<in> set (fst (tick raises now c))"
  then have e: "current_time e = strftime_HMS now" "remaining e = remaining_str now"
    using call_all_args [of e raises _ "strftime_HMS now" "remaining_str now"]
    by (simp_all add: tick_def)
  show "current_time e =
           two_digits (nat (hour now)) @ '':'' @ two_digits (nat (minute now)) @ '':'' @
           two_digits (nat (second now))"
    using e(1) assms by (simp only: strftime_HMS_two_digits)
  show "remaining e =
           ''-'' @ two_digits (nat (seconds_to_next_hour now div 60)) @ '':'' @
           two_digits (nat (seconds_to_next_hour now mod 60))"
    using e(2) assms by (simp only: remaining_str_two_digits)
  show "current_time e = ''14:59:47''" and "remaining e = ''-00:13''"
    if "hour now = 14 \<and> minute now = 59 \<and> second now = 47"
    using that unfolding e by (simp_all add: clock_string_defs)
  show "remaining e = ''-'' @ two_digits (nat (60 - minute now)) @ '':00''"
    if "second now = 0"
    using assms that unfolding e by (rule remaining_str_at_minute)
next
  fix cb
  assume "\<forall>cb \<in> set (dict_values (callbacks c)). \<not> raises cb"
    and "cb \<in> set (dict_values (callbacks c))"
  then show "Call cb (strftime_HMS now) (remaining_str now) \<in> set (fst (tick raises now c))"
    by (simp add: tick_def call_all_no_raise)
qed

theorem tick_strings_witness:
  "valid_datetime \<lparr>hour = 14, minute = 59, second = 47\<rparr> \<and>
   Call ''update'' ''14:59:47'' ''-00:13'' \<in>
     set (fst (tick (\<lambda>_. False) \<lparr>hour = 14, minute = 59, second = 47\<rparr>
                 (add_callback ''mini'' ''update'' Clock_init))) \<and>
   current_time (Call ''update'' ''14:59:47'' ''-00:13'') = ''14:59:47'' \<and>
   remaining (Call ''update'' ''14:59:47'' ''-00:13'') = ''-00:13''"
proof -
  let ?now = "\<lparr>hour = 14, minute = 59, second = 47\<rparr>"
  let ?c = "add_callback ''mini'' ''update'' Clock_init :: string Clock"
  have v: "valid_datetime ?now"
    by (simp add: valid_datetime_def)
  have r: "dict_values (callbacks ?c) = [''update'']"
    by (simp add: add_callback_def Clock_init_def dict_setitem_def dict_values_def)
  from tick_strings [OF v, of "\<lambda>_. False" ?c]
  have "\<forall>cb \<in> set (dict_values (callbacks ?c)).
          Call cb (strftime_HMS ?now) (remaining_str ?now) \<in> set (fst (tick (\<lambda>_. False) ?now ?c))"
    by simp
  then have m: "Call ''update'' ''14:59:47'' ''-00:13'' \<in> set (fst (tick (\<lambda>_. False) ?now ?c))"
    by (simp add: r strings_at_14_59_47)
  from v m show ?thesis by simp
qed

text \<open>
  C1 as stated fails at a full minute that is not the last of its hour: at 14:30:00 the
  countdown is \<^verbatim>\<open>-30:00\<close>, not \<^verbatim>\<open>-00:00\<close>.
\<close>

theorem remaining_at_minute_counterexample:
  "valid_datetime \<lparr>hour = 14, minute = 30, second = 0\<rparr> \<and>
   second \<lparr>hour = 14, minute = 30, second = 0\<rparr> = 0 \<and>
   tick (\<lambda>_. False) \<lparr>hour = 14, minute = 30, second = 0\<rparr>
     (add_callback ''mini'' ''update'' Clock_init) =
     ([Call ''update'' ''14:30:00'' ''-30:00''], True) \<and>
   ''-30:00'' \<noteq> ''-00:00''"
  by (simp add: valid_datetime_def tick_def add_callback_def Clock_init_def dict_setitem_def
      dict_values_def clock_string_defs)

subsection \<open>The registry\<close>

lemma dict_keys_setitem:
  "set (dict_keys (dict_setitem k v d)) = insert k (set (dict_keys d))"
  by (simp add: dict_keys_def dict_setitem_def dom_update)

lemma distinct_dict_setitem:
  "distinct (dict_keys d) \<Longrightarrow> distinct (dict_keys (dict_setitem k v d))"
  by (simp add: dict_keys_def dict_setitem_def distinct_update)

lemma distinct_dict_delete:
  "distinct (dict_keys d) \<Longrightarrow> distinct (dict_keys (AList.delete k d))"
  by (simp add: dict_keys_def distinct_delete)

lemma length_delete_distinct:
  "distinct (map fst d) \<Longrightarrow> k \<in> fst ` set d \<Longrightarrow> length (AList.delete k d) + 1 = length d"
proof (induction d)
  case Nil
  then show ?case by simp
next
  case (Cons p d)
  show ?case
  proof (cases "fst p = k")
    case True
    with Cons.prems have "k \<notin> fst ` set d" by auto
    then have "AList.delete k d = d" by (simp add: delete_id)
    with True show ?thesis by (cases p) simp
  next
    case False
    with Cons show ?thesis by (cases p) auto
  qed
qed

text \<open>
  C4: \<^verbatim>\<open>remove_callback\<close> with a name that is not registered raises (the \<^verbatim>\<open>KeyError\<close> of
  \<^verbatim>\<open>del\<close>, the specification's UnknownObserver) and changes nothing; with a registered
  name it removes that entry and no other: every other name keeps its callback and its
  place, and the registry is one entry shorter.
\<close>

theorem remove_callback_unknown_or_exact:
  "(name \<notin> set (dict_keys (callbacks c)) \<longrightarrow> remove_callback name c = Inl (KeyError name)) \<and>
   (name \<in> set (dict_keys (callbacks c)) \<longrightarrow>
      (\<exists>c'. remove_callback name c = Inr c' \<and>
            enabled c' = enabled c \<and>
            callbacks c' = filter (\<lambda>(k, cb). k \<noteq> name) (callbacks c) \<and>
            name \<notin> set (dict_keys (callbacks c')) \<and>
            (\<forall>k. k \<noteq> name \<longrightarrow> map_of (callbacks c') k = map_of (callbacks c) k) \<and>
            (distinct (dict_keys (callbacks c)) \<longrightarrow>
               length (callbacks c') + 1 = length (callbacks c))))"
proof (intro conjI impI)
  assume "name \<notin> set (dict_keys (callbacks c))"
  then show "remove_callback name c = Inl (KeyError name)"
    by (simp add: remove_callback_def dict_delitem_def dict_keys_def)
next
  assume reg: "name \<in> set (dict_keys (callbacks c))"
  define c' where "c' = c\<lparr>callbacks := AList.delete name (callbacks c)\<rparr>"
  from reg have r: "remove_callback name c = Inr c'"
    by (simp add: remove_callback_def dict_delitem_def dict_keys_def c'_def)
  have f: "callbacks c' = filter (\<lambda>(k, cb). k \<noteq> name) (callbacks c)"
    by (auto simp: c'_def AList.delete_eq case_prod_unfold intro!: filter_cong)
  have n: "name \<notin> set (dict_keys (callbacks c'))"
    by (auto simp: c'_def dict_keys_def AList.delete_eq)
  have m: "\<forall>k. k \<noteq> name \<longrightarrow> map_of (callbacks c') k = map_of (callbacks c) k"
    by (simp add: c'_def delete_conv)
  have l: "distinct (dict_keys (callbacks c)) \<longrightarrow> length (callbacks c') + 1 = length (callbacks c)"
  proof
    assume "distinct (dict_keys (callbacks c))"
    with reg have "length (AList.delete name (callbacks c)) + 1 = length (callbacks c)"
      by (intro length_delete_distinct) (simp_all add: dict_keys_def)
    then show "length (callbacks c') + 1 = length (callbacks c)" by (simp add: c'_def)
  qed
  have e: "enabled c' = enabled c" by (simp add: c'_def)
  from r e f n m l
  show "\<exists>c'. remove_callback name c = Inr c' \<and>
            enabled c' = enabled c \<and>
            callbacks c' = filter (\<lambda>(k, cb). k \<noteq> name) (callbacks c) \<and>
            name \<notin> set (dict_keys (callbacks c')) \<and>
            (\<forall>k. k \<noteq> name \<longrightarrow> map_of (callbacks c') k = map_of (callbacks c) k) \<and>
            (distinct (dict_keys (callbacks c)) \<longrightarrow>
               length (callbacks c') + 1 = length (callbacks c))"
    by blast
qed

theorem remove_callback_witness:
  "''gone'' \<notin> set (dict_keys (callbacks (add_callback ''mini'' ''update'' Clock_init))) \<and>
   remove_callback ''gone'' (add_callback ''mini'' ''update'' Clock_init) =
     Inl (KeyError ''gone'') \<and>
   ''mini'' \<in> set (dict_keys (callbacks (add_callback ''mini'' ''update'' Clock_init))) \<and>
   distinct (dict_keys (callbacks (add_callback ''mini'' ''update'' Clock_init))) \<and>
   remove_callback ''mini'' (add_callback ''mini'' ''update'' Clock_init) = Inr Clock_init"
proof -
  let ?c = "add_callback ''mini'' ''update'' Clock_init :: string Clock"
  have a: "''gone'' \<notin> set (dict_keys (callbacks ?c))"
    and b: "''mini'' \<in> set (dict_keys (callbacks ?c))"
    and d: "distinct (dict_keys (callbacks ?c))"
    by (simp_all add: add_callback_def Clock_init_def dict_setitem_def dict_keys_def)
  from remove_callback_unknown_or_exact [of "''gone''" ?c] a
  have 1: "remove_callback ''gone'' ?c = Inl (KeyError ''gone'')" by blast
  from remove_callback_unknown_or_exact [of "''mini''" ?c] b
  have 2: "\<exists>r. remove_callback ''mini'' ?c = Inr r \<and> ''mini'' \<notin> set (dict_keys (callbacks r))"
    by blast
  have 3: "remove_callback ''mini'' ?c = Inr Clock_init"
    by (simp add: remove_callback_def dict_delitem_def add_callback_def Clock_init_def
        dict_setitem_def)
  from a b d 1 2 3 show ?thesis by blast
qed

lemma count_calls_map:
  "length (filter (\<lambda>e. callee e = cb) (map (\<lambda>x. Call x ct rm) cbs)) = count_list cbs cb"
  by (induction cbs) auto

lemma two_observers_registry:
  "k1 \<noteq> k2 \<Longrightarrow>
   callbacks (add_callback k2 cb2 (add_callback k1 cb1 Clock_init)) = [(k1, cb1), (k2, cb2)]"
  by (simp add: add_callback_def Clock_init_def dict_setitem_def)

lemma two_observers_remove_first:
  "k1 \<noteq> k2 \<Longrightarrow>
   remove_callback k1 (add_callback k2 cb2 (add_callback k1 cb1 Clock_init)) =
     Inr (add_callback k2 cb2 Clock_init)"
  by (simp add: remove_callback_def dict_delitem_def add_callback_def Clock_init_def
      dict_setitem_def)

subsection \<open>A tick while the registry is live\<close>

lemma loop_next_ended: "ended s \<noteq> None \<Longrightarrow> loop_next raises ct rm s = s"
  by (simp add: loop_next_def)

lemma fold_next_ended:
  "ended s \<noteq> None \<Longrightarrow> fold (loop_step raises ct rm) (replicate n Next) s = s"
  by (induction n) (simp_all add: loop_next_ended)

lemma fold_next_Suc:
  "fold (loop_step raises ct rm) (replicate (Suc n) Next) s =
   fold (loop_step raises ct rm) (replicate n Next) (loop_next raises ct rm s)"
  by (simp del: fold_replicate)

lemma loop_next_made:
  "made (loop_next raises ct rm s) = made s \<or>
   (\<exists>cb. made (loop_next raises ct rm s) = made s @ [Call cb ct rm])"
  by (simp add: loop_next_def)

lemma tk_apply_made: "made (tk_apply x s) = made s"
  by (cases x) (simp_all split: sum.splits)

lemma loop_step_strings:
  assumes "\<forall>e \<in> set (made s). current_time e = ct \<and> remaining e = rm"
  shows "\<forall>e \<in> set (made (loop_step raises ct rm a s)). current_time e = ct \<and> remaining e = rm"
proof (cases a)
  case Next
  from loop_next_made [of raises ct rm s] assms
  have "\<forall>e \<in> set (made (loop_next raises ct rm s)). current_time e = ct \<and> remaining e = rm"
    by (elim disjE exE) simp_all
  with Next show ?thesis by simp
next
  case (Tk x)
  with assms show ?thesis by (simp add: tk_apply_made del: tk_apply.simps)
qed

lemma fold_loop_step_strings:
  "\<forall>e \<in> set (made s). current_time e = ct \<and> remaining e = rm \<Longrightarrow>
   \<forall>e \<in> set (made (fold (loop_step raises ct rm) sched s)). current_time e = ct \<and> remaining e = rm"
proof (induction sched arbitrary: s)
  case Nil
  then show ?case by simp
next
  case (Cons a sched)
  from Cons.prems have "\<forall>e \<in> set (made (loop_step raises ct rm a s)).
      current_time e = ct \<and> remaining e = rm"
    by (rule loop_step_strings)
  then have "\<forall>e \<in> set (made (fold (loop_step raises ct rm) sched (loop_step raises ct rm a s))).
      current_time e = ct \<and> remaining e = rm"
    by (rule Cons.IH)
  then show ?case by (simp del: loop_step.simps)
qed

lemma live_tick_strings:
  "\<forall>e \<in> set (made (live_tick raises now sched c)).
     current_time e = strftime_HMS now \<and> remaining e = remaining_str now"
  unfolding live_tick_def by (rule fold_loop_step_strings) (simp add: live_loop_init_def)

text \<open>
  With no operation of the Tk thread in between, the loop does what \<open>call_all\<close> does on
  the values that are still ahead.
\<close>

lemma undisturbed_loop:
  assumes "ended s = None" and "\<not> modified s" and "used0 s = length (callbacks (registry s))"
    and "pos s \<le> length (callbacks (registry s))"
    and "length (callbacks (registry s)) - pos s < n"
  shows "made (fold (loop_step raises ct rm) (replicate n Next) s) =
           made s @ fst (call_all raises (drop (pos s) (dict_values (callbacks (registry s)))) ct rm) \<and>
         ended (fold (loop_step raises ct rm) (replicate n Next) s) =
           Some (if snd (call_all raises (drop (pos s) (dict_values (callbacks (registry s)))) ct rm)
                 then LoopDone else CallbackRaised) \<and>
         registry (fold (loop_step raises ct rm) (replicate n Next) s) = registry s \<and>
         tk_errors (fold (loop_step raises ct rm) (replicate n Next) s) = tk_errors s"
  using assms
proof (induction n arbitrary: s)
  case 0
  then show ?case by simp
next
  case (Suc n)
  let ?d = "callbacks (registry s)"
  let ?s = "loop_next raises ct rm s"
  show ?case
  proof (cases "pos s < length ?d")
    case False
    with Suc.prems have e: "pos s = length ?d" by simp
    with Suc.prems have l: "?s = s\<lparr>ended := Some LoopDone\<rparr>" by (simp add: loop_next_def)
    then have "ended ?s \<noteq> None" by simp
    then have "fold (loop_step raises ct rm) (replicate n Next) ?s = ?s"
      by (rule fold_next_ended)
    with l have "fold (loop_step raises ct rm) (replicate (Suc n) Next) s = s\<lparr>ended := Some LoopDone\<rparr>"
      by (simp only: fold_next_Suc)
    with e show ?thesis by (simp add: dict_values_def del: fold_replicate replicate.simps)
  next
    case True
    let ?cb = "snd (?d ! pos s)"
    from True have dr: "drop (pos s) (dict_values ?d) = ?cb # drop (Suc (pos s)) (dict_values ?d)"
      by (simp add: dict_values_def flip: Cons_nth_drop_Suc)
    from True Suc.prems have st: "?s = s\<lparr>pos := pos s + 1, made := made s @ [Call ?cb ct rm],
          ended := (if raises ?cb then Some CallbackRaised else None)\<rparr>"
      by (simp add: loop_next_def)
    show ?thesis
    proof (cases "raises ?cb")
      case True
      with st have "ended ?s \<noteq> None" by simp
      then have "fold (loop_step raises ct rm) (replicate n Next) ?s = ?s"
        by (rule fold_next_ended)
      then have "fold (loop_step raises ct rm) (replicate (Suc n) Next) s = ?s"
        by (simp only: fold_next_Suc)
      then show ?thesis
        using True by (simp add: st dr del: fold_replicate replicate.simps)
    next
      case False
      with st have a: "ended ?s = None" "\<not> modified ?s"
        "used0 ?s = length (callbacks (registry ?s))"
        using Suc.prems by simp_all
      from st True have b: "pos ?s \<le> length (callbacks (registry ?s))" by simp
      from st Suc.prems True have c: "length (callbacks (registry ?s)) - pos ?s < n" by simp
      let ?F = "fold (loop_step raises ct rm) (replicate n Next) ?s"
      let ?X = "call_all raises (drop (Suc (pos s)) (dict_values ?d)) ct rm"
      have f: "registry ?s = registry s" "pos ?s = Suc (pos s)"
        "made ?s = made s @ [Call ?cb ct rm]" "tk_errors ?s = tk_errors s"
        by (simp_all add: st)
      have ca: "call_all raises (drop (pos s) (dict_values ?d)) ct rm =
          (Call ?cb ct rm # fst ?X, snd ?X)"
        using False by (simp add: dr split: prod.splits)
      from Suc.IH [OF a b c]
      have "made ?F = made s @ [Call ?cb ct rm] @ fst ?X"
        and "ended ?F = Some (if snd ?X then LoopDone else CallbackRaised)"
        and "registry ?F = registry s" and "tk_errors ?F = tk_errors s"
        by (simp_all only: f append_assoc)
      then show ?thesis
        by (simp only: fold_next_Suc ca fst_conv snd_conv append.simps simp_thms)
    qed
  qed
qed

lemma undisturbed_live_tick:
  assumes "length (callbacks c) < n"
  shows "made (live_tick raises now (replicate n Next) c) = fst (tick raises now c) \<and>
         ended (live_tick raises now (replicate n Next) c) =
           Some (if snd (tick raises now c) then LoopDone else CallbackRaised) \<and>
         registry (live_tick raises now (replicate n Next) c) = c"
  using undisturbed_loop [of "live_loop_init c" n raises "strftime_HMS now" "remaining_str now"]
    assms
  by (simp add: live_tick_def tick_def live_loop_init_def)

lemma two_observers_values:
  "k1 \<noteq> k2 \<Longrightarrow>
   dict_values (callbacks (add_callback k2 cb2 (add_callback k1 cb1 Clock_init))) = [cb1, cb2]"
  by (simp add: two_observers_registry dict_values_def)

text \<open>
  C6 (as amended): within a tick the time is read once, so every call of the tick gets
  the same pair of strings, whatever happens to the registry meanwhile. When no
  registered observer raises and the Tk thread does not touch the registry while the loop
  runs, the tick calls the registered observers one after the other, each registration
  exactly once, and the loop ends normally. With two observers registered under different
  names on a new clock, such a tick calls both, once each; after the first is removed,
  a later such tick calls only the second.
\<close>

theorem undisturbed_tick_calls_every_observer_once:
  "(\<forall>e \<in> set (made (live_tick raises now sched c)).
      current_time e = strftime_HMS now \<and> remaining e = remaining_str now) \<and>
   ((\<forall>cb \<in> set (dict_values (callbacks c)). \<not> raises cb) \<and> length (callbacks c) < n \<longrightarrow>
      made (live_tick raises now (replicate n Next) c) =
        map (\<lambda>cb. Call cb (strftime_HMS now) (remaining_str now)) (dict_values (callbacks c)) \<and>
      ended (live_tick raises now (replicate n Next) c) = Some LoopDone \<and>
      registry (live_tick raises now (replicate n Next) c) = c \<and>
      tick raises now c =
        (map (\<lambda>cb. Call cb (strftime_HMS now) (remaining_str now)) (dict_values (callbacks c)),
         True) \<and>
      (\<forall>cb. length (filter (\<lambda>e. callee e = cb) (made (live_tick raises now (replicate n Next) c))) =
            count_list (dict_values (callbacks c)) cb) \<and>
      (\<forall>k1 k2 cb1 cb2 later.
         k1 \<noteq> k2 \<and> c = add_callback k2 cb2 (add_callback k1 cb1 Clock_init) \<longrightarrow>
           made (live_tick raises now (replicate n Next) c) =
             [Call cb1 (strftime_HMS now) (remaining_str now),
              Call cb2 (strftime_HMS now) (remaining_str now)] \<and>
           (\<exists>c'. remove_callback k1 c = Inr c' \<and>
                 made (live_tick raises later (replicate n Next) c') =
                   [Call cb2 (strftime_HMS later) (remaining_str later)])))"
proof (intro conjI impI)
  show "\<forall>e \<in> set (made (live_tick raises now sched c)).
      current_time e = strftime_HMS now \<and> remaining e = remaining_str now"
    by (rule live_tick_strings)
next
  assume h: "(\<forall>cb \<in> set (dict_values (callbacks c)). \<not> raises cb) \<and> length (callbacks c) < n"
  then have nr: "\<forall>cb \<in> set (dict_values (callbacks c)). \<not> raises cb"
    and n: "length (callbacks c) < n" by simp_all
  have t: "tick raises t c =
       (map (\<lambda>cb. Call cb (strftime_HMS t) (remaining_str t)) (dict_values (callbacks c)), True)"
    for t
    unfolding tick_def using nr by (rule call_all_no_raise)
  from undisturbed_live_tick [OF n, of raises now]
  have m: "made (live_tick raises now (replicate n Next) c) =
        map (\<lambda>cb. Call cb (strftime_HMS now) (remaining_str now)) (dict_values (callbacks c))"
    and e: "ended (live_tick raises now (replicate n Next) c) = Some LoopDone"
    and r: "registry (live_tick raises now (replicate n Next) c) = c"
    by (simp_all only: t fst_conv snd_conv if_True)
  show "made (live_tick raises now (replicate n Next) c) =
        map (\<lambda>cb. Call cb (strftime_HMS now) (remaining_str now)) (dict_values (callbacks c))"
    by (rule m)
  show "ended (live_tick raises now (replicate n Next) c) = Some LoopDone" by (rule e)
  show "registry (live_tick raises now (replicate n Next) c) = c" by (rule r)
  show "tick raises now c =
        (map (\<lambda>cb. Call cb (strftime_HMS now) (remaining_str now)) (dict_values (callbacks c)),
         True)"
    by (rule t)
  show "\<forall>cb. length (filter (\<lambda>e. callee e = cb) (made (live_tick raises now (replicate n Next) c))) =
            count_list (dict_values (callbacks c)) cb"
    by (simp only: m count_calls_map) simp
  show "\<forall>k1 k2 cb1 cb2 later.
         k1 \<noteq> k2 \<and> c = add_callback k2 cb2 (add_callback k1 cb1 Clock_init) \<longrightarrow>
           made (live_tick raises now (replicate n Next) c) =
             [Call cb1 (strftime_HMS now) (remaining_str now),
              Call cb2 (strftime_HMS now) (remaining_str now)] \<and>
           (\<exists>c'. remove_callback k1 c = Inr c' \<and>
                 made (live_tick raises later (replicate n Next) c') =
                   [Call cb2 (strftime_HMS later) (remaining_str later)])"
  proof (intro allI impI, elim conjE)
    fix k1 k2 :: string and cb1 cb2 :: 'a and later
    assume ne: "k1 \<noteq> k2" and c: "c = add_callback k2 cb2 (add_callback k1 cb1 Clock_init)"
    from ne have v: "dict_values (callbacks c) = [cb1, cb2]"
      unfolding c by (rule two_observers_values)
    with m have first: "made (live_tick raises now (replicate n Next) c) =
             [Call cb1 (strftime_HMS now) (remaining_str now),
              Call cb2 (strftime_HMS now) (remaining_str now)]"
      by simp
    let ?c' = "add_callback k2 cb2 Clock_init :: 'a Clock"
    from ne have rm: "remove_callback k1 c = Inr ?c'"
      unfolding c by (rule two_observers_remove_first)
    have v': "dict_values (callbacks ?c') = [cb2]"
      by (simp add: add_callback_def Clock_init_def dict_setitem_def dict_values_def)
    from v nr have nr2: "\<not> raises cb2" by simp
    from v have "length (callbacks c) = 2"
      using length_map [of snd "callbacks c"] by (simp add: dict_values_def)
    with n have n': "length (callbacks ?c') < n"
      by (simp add: add_callback_def Clock_init_def dict_setitem_def)
    have "tick raises later ?c' = ([Call cb2 (strftime_HMS later) (remaining_str later)], True)"
      using nr2 by (simp add: tick_def v')
    with undisturbed_live_tick [OF n', of raises later]
    have "made (live_tick raises later (replicate n Next) ?c') =
        [Call cb2 (strftime_HMS later) (remaining_str later)]"
      by simp
    with first rm show "made (live_tick raises now (replicate n Next) c) =
             [Call cb1 (strftime_HMS now) (remaining_str now),
              Call cb2 (strftime_HMS now) (remaining_str now)] \<and>
           (\<exists>c'. remove_callback k1 c = Inr c' \<and>
                 made (live_tick raises later (replicate n Next) c') =
                   [Call cb2 (strftime_HMS later) (remaining_str later)])"
      by (intro conjI exI [of _ ?c']) simp_all
  qed
qed

theorem undisturbed_tick_calls_every_observer_once_witness:
  "made (live_tick (\<lambda>_. False) \<lparr>hour = 14, minute = 59, second = 47\<rparr> (replicate 3 Next)
     (add_callback ''top'' ''update_top'' (add_callback ''mini'' ''update_mini'' Clock_init))) =
     [Call ''update_mini'' ''14:59:47'' ''-00:13'', Call ''update_top'' ''14:59:47'' ''-00:13''] \<and>
   ended (live_tick (\<lambda>_. False) \<lparr>hour = 14, minute = 59, second = 47\<rparr> (replicate 3 Next)
     (add_callback ''top'' ''update_top'' (add_callback ''mini'' ''update_mini'' Clock_init))) =
     Some LoopDone \<and>
   (\<exists>c'. remove_callback ''mini''
           (add_callback ''top'' ''update_top'' (add_callback ''mini'' ''update_mini'' Clock_init)) =
           Inr c' \<and>
         made (live_tick (\<lambda>_. False) \<lparr>hour = 15, minute = 0, second = 0\<rparr> (replicate 3 Next) c') =
           [Call ''update_top'' ''15:00:00'' ''-60:00''])"
proof -
  let ?c = "add_callback ''top'' ''update_top'' (add_callback ''mini'' ''update_mini'' Clock_init)
            :: string Clock"
  let ?now = "\<lparr>hour = 14, minute = 59, second = 47\<rparr>"
  let ?later = "\<lparr>hour = 15, minute = 0, second = 0\<rparr>"
  have r: "callbacks ?c = [(''mini'', ''update_mini''), (''top'', ''update_top'')]"
    by (simp add: two_observers_registry)
  have h: "(\<forall>cb \<in> set (dict_values (callbacks ?c)). \<not> (\<lambda>_. False) cb) \<and>
           length (callbacks ?c) < 3"
    by (simp add: r)
  have s: "strftime_HMS ?later = ''15:00:00''" "remaining_str ?later = ''-60:00''"
    by (simp_all add: clock_string_defs)
  note t = undisturbed_tick_calls_every_observer_once
    [of "\<lambda>_. False" ?now "[]" ?c 3, THEN conjunct2, THEN mp, OF h]
  from t have 1: "made (live_tick (\<lambda>_. False) ?now (replicate 3 Next) ?c) =
     [Call ''update_mini'' ''14:59:47'' ''-00:13'', Call ''update_top'' ''14:59:47'' ''-00:13'']"
    by (simp only: r dict_values_def strings_at_14_59_47) simp
  from t have 2: "ended (live_tick (\<lambda>_. False) ?now (replicate 3 Next) ?c) = Some LoopDone"
    by (elim conjE)
  from t have "\<exists>c'. remove_callback ''mini'' ?c = Inr c' \<and>
         made (live_tick (\<lambda>_. False) ?later (replicate 3 Next) c') =
           [Call ''update_top'' (strftime_HMS ?later) (remaining_str ?later)]"
    by blast
  then have 3: "\<exists>c'. remove_callback ''mini'' ?c = Inr c' \<and>
         made (live_tick (\<lambda>_. False) ?later (replicate 3 Next) c') =
           [Call ''update_top'' ''15:00:00'' ''-60:00'']"
    by (simp only: s)
  show ?thesis by (intro conjI 1 2 3)
qed

text \<open>
  C6 as stated fails in two ways. An observer that raises ends the loop: the observer
  registered after it is not called. And a registration by the Tk thread while the loop
  runs changes the size of the dictionary: the next request to the iterator raises
  \<^verbatim>\<open>RuntimeError\<close>, and the observer the loop had not reached is not called, though no
  observer raised.
\<close>

theorem observer_not_called_counterexample:
  "dict_values (callbacks (add_callback ''top'' ''good'' (add_callback ''mini'' ''bad'' Clock_init))) =
     [''bad'', ''good''] \<and>
   tick (\<lambda>cb. cb = ''bad'') \<lparr>hour = 14, minute = 59, second = 47\<rparr>
     (add_callback ''top'' ''good'' (add_callback ''mini'' ''bad'' Clock_init)) =
     ([Call ''bad'' ''14:59:47'' ''-00:13''], False) \<and>
   made (live_tick (\<lambda>cb. cb = ''bad'') \<lparr>hour = 14, minute = 59, second = 47\<rparr> [Next, Next, Next]
     (add_callback ''top'' ''good'' (add_callback ''mini'' ''bad'' Clock_init))) =
     [Call ''bad'' ''14:59:47'' ''-00:13''] \<and>
   ended (live_tick (\<lambda>cb. cb = ''bad'') \<lparr>hour = 14, minute = 59, second = 47\<rparr> [Next, Next, Next]
     (add_callback ''top'' ''good'' (add_callback ''mini'' ''bad'' Clock_init))) =
     Some CallbackRaised \<and>
   made (live_tick (\<lambda>_. False) \<lparr>hour = 14, minute = 59, second = 47\<rparr>
     [Next, Tk (TkAdd ''clock2'' ''update2''), Next, Next]
     (add_callback ''top'' ''update_top'' (add_callback ''mini'' ''update_mini'' Clock_init))) =
     [Call ''update_mini'' ''14:59:47'' ''-00:13''] \<and>
   ended (live_tick (\<lambda>_. False) \<lparr>hour = 14, minute = 59, second = 47\<rparr>
     [Next, Tk (TkAdd ''clock2'' ''update2''), Next, Next]
     (add_callback ''top'' ''update_top'' (add_callback ''mini'' ''update_mini'' Clock_init))) =
     Some ChangedSize"
  by (simp add: tick_def live_tick_def live_loop_init_def loop_next_def add_callback_def
      Clock_init_def dict_setitem_def dict_values_def dict_keys_def strings_at_14_59_47)

subsection \<open>One playback\<close>

lemma run_unfold:
  "run fails a =
     (if fails AtStartCallback then ([Called (start_callback a)], RunRaised)
      else if fails AtPlay then ([Called (start_callback a)], RunRaised)
      else if fails AtWaitDone then ([Called (start_callback a), PlayBegin], RunRaised)
      else if fails AtStopCallback
        then ([Called (start_callback a), PlayBegin, PlayDone, Called (stop_callback a)], RunRaised)
      else ([Called (start_callback a), PlayBegin, PlayDone, Called (stop_callback a)],
            RunReturned))"
  by (simp add: run_def eval_nat_numeral)

lemma run_succeeds:
  "run (\<lambda>_. False) a =
     ([Called (start_callback a), PlayBegin, PlayDone, Called (stop_callback a)], RunReturned)"
  by (simp add: run_unfold)

lemma plays_eq:
  "plays n a =
     concat (replicate n [Called (start_callback a), PlayBegin, PlayDone, Called (stop_callback a)])"
  by (induction n) (simp_all add: run_succeeds)

lemma count_list_concat_replicate:
  "count_list (concat (replicate n xs)) x = n * count_list xs x"
  by (induction n) simp_all

text \<open>
  C5: a play is successful when \<^verbatim>\<open>run\<close> returns. Then the thread has done exactly four
  things, in this order: called \<^verbatim>\<open>start_callback\<close>, begun the audio output, waited for
  the sample to be played to its end, called \<^verbatim>\<open>stop_callback\<close>; so each callback is
  called once, the first before any output and the second after the playback is complete.
  A run in which no call raises is successful, and \<open>n\<close> plays in a row call each callback
  \<open>n\<close> times.
\<close>

theorem run_start_then_play_then_stop:
  "(snd (run fails a) = RunReturned \<longrightarrow>
      fst (run fails a) =
        [Called (start_callback a), PlayBegin, PlayDone, Called (stop_callback a)]) \<and>
   ((\<forall>pc. \<not> fails pc) \<longrightarrow> snd (run fails a) = RunReturned) \<and>
   (snd (run fails a) = RunReturned \<and> start_callback a \<noteq> stop_callback a \<longrightarrow>
      count_list (fst (run fails a)) (Called (start_callback a)) = 1 \<and>
      count_list (fst (run fails a)) (Called (stop_callback a)) = 1) \<and>
   (start_callback a \<noteq> stop_callback a \<longrightarrow>
      count_list (plays n a) (Called (start_callback a)) = n \<and>
      count_list (plays n a) (Called (stop_callback a)) = n)"
proof (intro conjI impI)
  assume "snd (run fails a) = RunReturned"
  then show "fst (run fails a) =
        [Called (start_callback a), PlayBegin, PlayDone, Called (stop_callback a)]"
    by (simp add: run_unfold split: if_splits)
next
  assume "\<forall>pc. \<not> fails pc"
  then show "snd (run fails a) = RunReturned" by (simp add: run_unfold)
next
  assume "snd (run fails a) = RunReturned \<and> start_callback a \<noteq> stop_callback a"
  then show "count_list (fst (run fails a)) (Called (start_callback a)) = 1"
    and "count_list (fst (run fails a)) (Called (stop_callback a)) = 1"
    by (simp_all add: run_unfold split: if_splits)
next
  assume "start_callback a \<noteq> stop_callback a"
  then show "count_list (plays n a) (Called (start_callback a)) = n"
    and "count_list (plays n a) (Called (stop_callback a)) = n"
    by (simp_all add: plays_eq count_list_concat_replicate)
qed

theorem run_start_then_play_then_stop_witness:
  "run (\<lambda>_. False)
     \<lparr>info = ''wav'', wav = ''samples'', start_callback = On_start, stop_callback = On_stop,
      audio_file = Path ''kick.wav''\<rparr> =
     ([Called On_start, PlayBegin, PlayDone, Called On_stop], RunReturned) \<and>
   count_list
     (plays 50 \<lparr>info = ''wav'', wav = ''samples'', start_callback = On_start,
                stop_callback = On_stop, audio_file = Path ''kick.wav''\<rparr>)
     (Called On_start) = 50"
proof -
  let ?a = "\<lparr>info = ''wav'', wav = ''samples'', start_callback = On_start,
             stop_callback = On_stop, audio_file = Path ''kick.wav''\<rparr>"
  have r: "snd (run (\<lambda>_. False) ?a) = RunReturned"
    using run_start_then_play_then_stop [of "\<lambda>_. False" ?a] by blast
  have "fst (run (\<lambda>_. False) ?a) = [Called On_start, PlayBegin, PlayDone, Called On_stop]"
    using run_start_then_play_then_stop [of "\<lambda>_. False" ?a] r by simp
  with r have 1: "run (\<lambda>_. False) ?a =
     ([Called On_start, PlayBegin, PlayDone, Called On_stop], RunReturned)"
    by (simp add: prod_eq_iff)
  have 2: "count_list (plays 50 ?a) (Called On_start) = 50"
    using run_start_then_play_then_stop [of _ ?a 50] by simp
  from 1 2 show ?thesis by blast
qed

subsection \<open>Path names\<close>

lemma split_slash_not_Nil: "split_slash xs \<noteq> []"
  by (induction xs) (auto split: list.splits)

lemma split_slash_no_slash: "CHR ''/'' \<notin> set xs \<Longrightarrow> split_slash xs = [xs]"
  by (induction xs) auto

lemma split_slash_append:
  "split_slash (xs @ CHR ''/'' # ys) = split_slash xs @ split_slash ys"
proof (induction xs)
  case Nil
  then show ?case by simp
next
  case (Cons x xs)
  then show ?case
    using split_slash_not_Nil [of xs] by (auto split: list.splits)
qed

lemma path_parts_strip:
  "path_parts (dropWhile (\<lambda>c. c = CHR ''/'') xs) = path_parts xs"
  by (induction xs) (simp_all add: path_parts_def)

lemma Path_components: "path_components (Path fname) = path_parts fname"
  by (simp add: Path_def splitroot_def Let_def path_parts_strip)

lemma path_name_last:
  "path_name fname = (case rev (path_parts fname) of [] \<Rightarrow> [] | x # _ \<Rightarrow> x)"
  by (simp add: path_name_def Path_components)

lemma path_name_base:
  assumes "CHR ''/'' \<notin> set base" and "base \<noteq> []" and "base \<noteq> ''.''"
  shows "path_name (dir @ ''/'' @ base) = base"
proof -
  have "path_parts (dir @ ''/'' @ base) = path_parts dir @ [base]"
    using assms by (simp add: path_parts_def split_slash_append split_slash_no_slash)
  then show ?thesis by (simp add: path_name_last)
qed

lemma path_name_plain:
  assumes "CHR ''/'' \<notin> set base" and "base \<noteq> []" and "base \<noteq> ''.''"
  shows "path_name base = base"
  using assms by (simp add: path_name_last path_parts_def split_slash_no_slash)

subsection \<open>Loading a sample\<close>

lemma valid_audio_path_init:
  "valid_audio_path env fname \<longleftrightarrow>
     (\<exists>a. PyCartAudio_init env fname On_start On_stop = Inr a)"
  by (auto simp: valid_audio_path_def PyCartAudio_init_def split: sum.splits option.splits)

lemma PyCartAudio_init_fields:
  "PyCartAudio_init env fname cb1 cb2 = Inr a \<Longrightarrow>
   audio_file a = Path fname \<and> start_callback a = cb1 \<and> stop_callback a = cb2"
  by (auto simp: PyCartAudio_init_def split: sum.splits option.splits)

lemma do_load_Inr:
  "PyCartAudio_init env fname On_start On_stop = Inr a \<Longrightarrow>
   do_load env fname b =
     (b\<lparr>pad_file := Some a, cfg_text := path_name fname, cfg_bg := ''green''\<rparr>, [], None)"
  by (simp add: do_load_def)

lemma do_load_Inl:
  "PyCartAudio_init env fname On_start On_stop = Inl e \<Longrightarrow>
   do_load env fname b =
     (case e of PyCartError msg \<Rightarrow> (b, [(''Error'', msg)], None) | _ \<Rightarrow> (b, [], Some e))"
  by (simp add: do_load_def)

lemma do_load_failed_pad:
  "PyCartAudio_init env fname On_start On_stop = Inl e \<Longrightarrow> fst (do_load env fname b) = b"
  by (simp add: do_load_Inl split: exn.splits)

text \<open>
  C8: for a valid audio path, \<^verbatim>\<open>do_load\<close> succeeds whatever the pad held before: no
  message box, no exception; the pad now holds the new sample (made from this path, kept
  as \<^verbatim>\<open>Path(fname)\<close>, with the pad's own callbacks), it shows the loaded colour, and its
  text is
  \<^verbatim>\<open>Path(fname).name\<close>, which for a path \<open>dir/base\<close> is \<open>base\<close>. Nothing else of the pad
  changes.
\<close>

theorem do_load_valid_path:
  assumes "valid_audio_path env fname"
  shows "\<exists>a. PyCartAudio_init env fname On_start On_stop = Inr a \<and>
             audio_file a = Path fname \<and>
             do_load env fname b =
               (b\<lparr>pad_file := Some a, cfg_text := path_name fname, cfg_bg := ''green''\<rparr>,
                [], None) \<and>
             pad_file (fst (do_load env fname b)) = Some a \<and>
             shows_loaded (fst (do_load env fname b)) \<and>
             cfg_text (fst (do_load env fname b)) = path_name fname \<and>
             (\<forall>dir base. fname = dir @ ''/'' @ base \<and> CHR ''/'' \<notin> set base \<and>
                         base \<noteq> [] \<and> base \<noteq> ''.'' \<longrightarrow>
                cfg_text (fst (do_load env fname b)) = base) \<and>
             (CHR ''/'' \<notin> set fname \<and> fname \<noteq> [] \<and> fname \<noteq> ''.'' \<longrightarrow>
                cfg_text (fst (do_load env fname b)) = fname)"
proof -
  from assms obtain a where a: "PyCartAudio_init env fname On_start On_stop = Inr a"
    by (auto simp: valid_audio_path_init)
  then have l: "do_load env fname b =
      (b\<lparr>pad_file := Some a, cfg_text := path_name fname, cfg_bg := ''green''\<rparr>, [], None)"
    by (rule do_load_Inr)
  have n: "\<forall>dir base. fname = dir @ ''/'' @ base \<and> CHR ''/'' \<notin> set base \<and>
                         base \<noteq> [] \<and> base \<noteq> ''.'' \<longrightarrow>
                cfg_text (fst (do_load env fname b)) = base"
  proof (intro allI impI, elim conjE)
    fix dir base
    assume f: "fname = dir @ ''/'' @ base"
      and "CHR ''/'' \<notin> set base" "base \<noteq> []" "base \<noteq> ''.''"
    then have "path_name fname = base" unfolding f by (intro path_name_base)
    then show "cfg_text (fst (do_load env fname b)) = base" by (simp add: l)
  qed
  have m: "CHR ''/'' \<notin> set fname \<and> fname \<noteq> [] \<and> fname \<noteq> ''.'' \<longrightarrow>
                cfg_text (fst (do_load env fname b)) = fname"
    by (simp add: l path_name_plain)
  from a l n m PyCartAudio_init_fields [OF a] show ?thesis
    by (intro exI [of _ a]) (simp add: shows_loaded_def)
qed

theorem do_load_valid_path_witness:
  "valid_audio_path
     \<lparr>fs = (\<lambda>p. if p = ''sub//kick.wav'' then Some ''RIFF'' else None),
      snd_tests = (\<lambda>_. Inr (Some ''wav'')), wave_decode = (\<lambda>_. Inr ''samples'')\<rparr>
     ''sub//kick.wav'' \<and>
   fst (do_load
     \<lparr>fs = (\<lambda>p. if p = ''sub//kick.wav'' then Some ''RIFF'' else None),
      snd_tests = (\<lambda>_. Inr (Some ''wav'')), wave_decode = (\<lambda>_. Inr ''samples'')\<rparr>
     ''sub//kick.wav'' (PyCartButton_init 1 ''#d9d9d9'')) =
     \<lparr>pad_id = 1,
      pad_file = Some \<lparr>info = ''wav'', wav = ''samples'', start_callback = On_start,
                       stop_callback = On_stop, audio_file = \<lparr>path_root = [], path_components = [''sub'', ''kick.wav'']\<rparr>\<rparr>,
      default_bg = ''#d9d9d9'', cfg_text = ''kick.wav'', cfg_bg = ''green'',
      cfg_state = NORMAL\<rparr>"
proof -
  let ?env = "\<lparr>fs = (\<lambda>p. if p = ''sub//kick.wav'' then Some ''RIFF'' else None),
      snd_tests = (\<lambda>_. Inr (Some ''wav'')), wave_decode = (\<lambda>_. Inr ''samples'')\<rparr>
      :: (string, string) audio_env"
  let ?b = "PyCartButton_init 1 ''#d9d9d9'' :: (string, string) PyCartButton"
  have v: "valid_audio_path ?env ''sub//kick.wav''"
    by (simp add: valid_audio_path_def whathdr_def from_wave_file_def)
  have i: "PyCartAudio_init ?env ''sub//kick.wav'' On_start On_stop =
      Inr \<lparr>info = ''wav'', wav = ''samples'', start_callback = On_start,
           stop_callback = On_stop, audio_file = \<lparr>path_root = [], path_components = [''sub'', ''kick.wav'']\<rparr>\<rparr>"
    by (simp add: PyCartAudio_init_def whathdr_def from_wave_file_def Path_def splitroot_def
        path_parts_def)
  have p: "''sub//kick.wav'' = ''sub/'' @ ''/'' @ ''kick.wav'' \<and>
      CHR ''/'' \<notin> set ''kick.wav'' \<and> ''kick.wav'' \<noteq> [] \<and> ''kick.wav'' \<noteq> ''.''" by simp
  from do_load_valid_path [OF v, of ?b] obtain a where
    a: "PyCartAudio_init ?env ''sub//kick.wav'' On_start On_stop = Inr a"
    and f: "pad_file (fst (do_load ?env ''sub//kick.wav'' ?b)) = Some a"
    and g: "shows_loaded (fst (do_load ?env ''sub//kick.wav'' ?b))"
    and t: "\<forall>dir base. ''sub//kick.wav'' = dir @ ''/'' @ base \<and> CHR ''/'' \<notin> set base \<and>
                         base \<noteq> [] \<and> base \<noteq> ''.'' \<longrightarrow>
                cfg_text (fst (do_load ?env ''sub//kick.wav'' ?b)) = base"
    by blast
  from a i have "a = \<lparr>info = ''wav'', wav = ''samples'', start_callback = On_start,
                stop_callback = On_stop, audio_file = \<lparr>path_root = [], path_components = [''sub'', ''kick.wav'']\<rparr>\<rparr>"
    by simp
  with f have "pad_file (fst (do_load ?env ''sub//kick.wav'' ?b)) =
          Some \<lparr>info = ''wav'', wav = ''samples'', start_callback = On_start,
                stop_callback = On_stop, audio_file = \<lparr>path_root = [], path_components = [''sub'', ''kick.wav'']\<rparr>\<rparr>"
    by simp
  moreover from g have "cfg_bg (fst (do_load ?env ''sub//kick.wav'' ?b)) = ''green''"
    by (simp only: shows_loaded_def)
  moreover from t p have "cfg_text (fst (do_load ?env ''sub//kick.wav'' ?b)) = ''kick.wav''"
    by blast
  moreover have "pad_id (fst (do_load ?env ''sub//kick.wav'' ?b)) = 1"
    and "default_bg (fst (do_load ?env ''sub//kick.wav'' ?b)) = ''#d9d9d9''"
    and "cfg_state (fst (do_load ?env ''sub//kick.wav'' ?b)) = NORMAL"
    by (simp_all add: do_load_Inr [OF i] PyCartButton_init_def)
  ultimately have r: "fst (do_load ?env ''sub//kick.wav'' ?b) =
     \<lparr>pad_id = 1,
      pad_file = Some \<lparr>info = ''wav'', wav = ''samples'', start_callback = On_start,
                       stop_callback = On_stop, audio_file = \<lparr>path_root = [], path_components = [''sub'', ''kick.wav'']\<rparr>\<rparr>,
      default_bg = ''#d9d9d9'', cfg_text = ''kick.wav'', cfg_bg = ''green'',
      cfg_state = NORMAL\<rparr>"
    by (intro PyCartButton.equality) simp_all
  show ?thesis by (rule conjI [OF v r])
qed

lemma not_valid_init:
  "\<not> valid_audio_path env fname \<Longrightarrow> \<exists>e. PyCartAudio_init env fname On_start On_stop = Inl e"
  by (cases "PyCartAudio_init env fname On_start On_stop") (auto simp: valid_audio_path_init)

lemma unrecognised_init:
  "fs env fname = Some content \<Longrightarrow> snd_tests env content = Inr None \<Longrightarrow>
   PyCartAudio_init env fname cb1 cb2 = Inl (PyCartError (not_valid_message fname))"
  by (simp add: PyCartAudio_init_def whathdr_def)

text \<open>
  C2 (as amended): a load that fails leaves the pad as it was, whatever the reason,
  a path that cannot be opened included. For a path that opens and that \<^verbatim>\<open>sndhdr\<close> does
  not recognise (an empty file, a file that is not audio), \<^verbatim>\<open>PyCartAudio\<close> raises
  \<^verbatim>\<open>PyCartError\<close>, \<^verbatim>\<open>do_load\<close> catches it and shows one message box with the error's text,
  and no exception leaves \<^verbatim>\<open>do_load\<close>.
\<close>

theorem do_load_invalid_path:
  "(\<not> valid_audio_path env fname \<longrightarrow> fst (do_load env fname b) = b) \<and>
   (fs env fname = Some content \<and> snd_tests env content = Inr None \<longrightarrow>
      \<not> valid_audio_path env fname \<and>
      PyCartAudio_init env fname On_start On_stop =
        Inl (PyCartError (not_valid_message fname)) \<and>
      do_load env fname b = (b, [(''Error'', not_valid_message fname)], None) \<and>
      pad (pad_step env (Load fname) s) = pad s \<and>
      shown (pad_step env (Load fname) s) = shown s @ [(''Error'', not_valid_message fname)] \<and>
      uncaught (pad_step env (Load fname) s) = uncaught s)"
proof (intro conjI impI)
  assume "\<not> valid_audio_path env fname"
  then obtain e where "PyCartAudio_init env fname On_start On_stop = Inl e"
    using not_valid_init by blast
  then show "fst (do_load env fname b) = b" by (rule do_load_failed_pad)
next
  assume "fs env fname = Some content \<and> snd_tests env content = Inr None"
  then have i: "PyCartAudio_init env fname On_start On_stop =
        Inl (PyCartError (not_valid_message fname))"
    by (simp add: unrecognised_init)
  then show "PyCartAudio_init env fname On_start On_stop =
        Inl (PyCartError (not_valid_message fname))" .
  from i show "\<not> valid_audio_path env fname" by (simp add: valid_audio_path_init)
  from i have l: "do_load env fname b' = (b', [(''Error'', not_valid_message fname)], None)" for b'
    by (simp add: do_load_Inl)
  then show "do_load env fname b = (b, [(''Error'', not_valid_message fname)], None)" .
  from l [of "pad s"] show "pad (pad_step env (Load fname) s) = pad s"
    and "shown (pad_step env (Load fname) s) = shown s @ [(''Error'', not_valid_message fname)]"
    and "uncaught (pad_step env (Load fname) s) = uncaught s"
    by simp_all
qed

theorem do_load_invalid_path_witness:
  "fs \<lparr>fs = (\<lambda>p. if p = ''empty.wav'' then Some [] else None),
       snd_tests = (\<lambda>content. if content = [] then Inr None else Inr (Some ''wav'')),
       wave_decode = (\<lambda>_. Inr ''samples'')\<rparr> ''empty.wav'' = Some [] \<and>
   do_load \<lparr>fs = (\<lambda>p. if p = ''empty.wav'' then Some [] else None),
       snd_tests = (\<lambda>content. if content = [] then Inr None else Inr (Some ''wav'')),
       wave_decode = (\<lambda>_. Inr ''samples'')\<rparr> ''empty.wav'' (PyCartButton_init 1 ''#d9d9d9'') =
     (PyCartButton_init 1 ''#d9d9d9'',
      [(''Error'', ''Could not load file empty.wav. Not a valid audio file.'')], None)"
proof -
  let ?env = "\<lparr>fs = (\<lambda>p. if p = ''empty.wav'' then Some [] else None),
       snd_tests = (\<lambda>content. if content = [] then Inr None else Inr (Some ''wav'')),
       wave_decode = (\<lambda>_. Inr ''samples'')\<rparr> :: (string, string) audio_env"
  have h: "fs ?env ''empty.wav'' = Some [] \<and> snd_tests ?env [] = Inr None" by simp
  with do_load_invalid_path [of ?env "''empty.wav''" _ "[]"]
  have "do_load ?env ''empty.wav'' b = (b, [(''Error'', not_valid_message ''empty.wav'')], None)"
    for b
    by blast
  with h show ?thesis by (simp add: not_valid_message_def)
qed

text \<open>
  C2 as stated fails for a path that does not exist: \<^verbatim>\<open>sndhdr.whathdr\<close> raises
  \<^verbatim>\<open>OSError\<close>, which is not a \<^verbatim>\<open>PyCartError\<close>; no message box is shown and the
  exception leaves \<^verbatim>\<open>do_load\<close>. The pad is unchanged.
\<close>

theorem do_load_missing_file_counterexample:
  "fs \<lparr>fs = (\<lambda>p. None), snd_tests = (\<lambda>content. Inr (Some ''wav'')),
       wave_decode = (\<lambda>_. Inr ''samples'')\<rparr> ''missing.wav'' = None \<and>
   do_load \<lparr>fs = (\<lambda>p. None), snd_tests = (\<lambda>content. Inr (Some ''wav'')),
       wave_decode = (\<lambda>_. Inr ''samples'')\<rparr> ''missing.wav'' (PyCartButton_init 1 ''#d9d9d9'') =
     (PyCartButton_init 1 ''#d9d9d9'', [], Some (OSError ''missing.wav'')) \<and>
   uncaught (pad_step \<lparr>fs = (\<lambda>p. None), snd_tests = (\<lambda>content. Inr (Some ''wav'')),
       wave_decode = (\<lambda>_. Inr ''samples'')\<rparr> (Load ''missing.wav'') (pad_sys_init 1 ''#d9d9d9'')) =
     [OSError ''missing.wav''] \<and>
   shown (pad_step \<lparr>fs = (\<lambda>p. None), snd_tests = (\<lambda>content. Inr (Some ''wav'')),
       wave_decode = (\<lambda>_. Inr ''samples'')\<rparr> (Load ''missing.wav'') (pad_sys_init 1 ''#d9d9d9'')) =
     []"
  by (simp add: do_load_def PyCartAudio_init_def whathdr_def pad_sys_init_def)

subsection \<open>Reset and play\<close>

text \<open>
  C9: after \<^verbatim>\<open>reset\<close> the pad holds no sample and has its default appearance (its own
  background and its number as text), whatever it held or showed before. \<^verbatim>\<open>play\<close> on a
  pad that holds no sample does nothing: it prints nothing and starts no playback thread,
  so no callback is called on its account; the pad and its threads are as before.
\<close>

theorem reset_then_play_does_nothing:
  "pad_file (reset b) = None \<and> shows_idle (reset b) \<and>
   cfg_bg (reset b) = default_bg b \<and> cfg_text (reset b) = str_int (pad_id b) \<and>
   play (reset b) = [] \<and>
   (pad_file b = None \<longrightarrow> play b = [] \<and> on_click b = []) \<and>
   (pad_file (pad s) = None \<longrightarrow> pad_step env Play s = s \<and> pad_step env Click s = s) \<and>
   pad_step env Play (pad_step env Reset s) = pad_step env Reset s"
  by (simp add: reset_def shows_idle_def play_def on_click_def)

theorem reset_then_play_does_nothing_witness:
  "pad_file (PyCartButton_init 1 ''#d9d9d9'' :: (string, string) PyCartButton) = None \<and>
   play (PyCartButton_init 1 ''#d9d9d9'' :: (string, string) PyCartButton) = [] \<and>
   pad_step \<lparr>fs = (\<lambda>p. None), snd_tests = (\<lambda>content. Inr (Some ''wav'')),
       wave_decode = (\<lambda>_. Inr ''samples'')\<rparr> Play (pad_sys_init 1 ''#d9d9d9'') =
     pad_sys_init 1 ''#d9d9d9''"
proof -
  let ?b = "PyCartButton_init 1 ''#d9d9d9'' :: (string, string) PyCartButton"
  let ?env = "\<lparr>fs = (\<lambda>p. None), snd_tests = (\<lambda>content. Inr (Some ''wav'')),
       wave_decode = (\<lambda>_. Inr ''samples'')\<rparr> :: (string, string) audio_env"
  have n: "pad_file ?b = None" "pad_file (pad (pad_sys_init 1 ''#d9d9d9'' :: (string, string) pad_sys)) = None"
    by (simp_all add: PyCartButton_init_def pad_sys_init_def)
  from reset_then_play_does_nothing [where b = ?b and s = "pad_sys_init 1 ''#d9d9d9''" and env = ?env] n
  show ?thesis by blast
qed

subsection \<open>A pad and its threads\<close>

text \<open>
  C3, at a schedule where it fails: a sample is loaded and played; the playback thread
  calls \<^verbatim>\<open>_on_start\<close>; the user resets the pad from its menu while the sample plays;
  the thread plays to the end and calls \<^verbatim>\<open>_on_stop\<close>, which paints the pad green. The
  pad then shows the loaded colour and holds no sample.
\<close>

theorem reset_while_playing_shows_loaded_without_sample:
  "pad (pad_exec
     \<lparr>fs = (\<lambda>p. if p = ''kick.wav'' then Some ''RIFF'' else None),
      snd_tests = (\<lambda>_. Inr (Some ''wav'')), wave_decode = (\<lambda>_. Inr ''samples'')\<rparr>
     [Load ''kick.wav'', Play, Advance 0, Reset, Advance 0, Advance 0, Advance 0]
     (pad_sys_init 1 ''#d9d9d9'')) =
     \<lparr>pad_id = 1, pad_file = None, default_bg = ''#d9d9d9'', cfg_text = ''1'',
      cfg_bg = ''green'', cfg_state = NORMAL\<rparr> \<and>
   shows_loaded \<lparr>pad_id = 1, pad_file = None, default_bg = ''#d9d9d9'', cfg_text = ''1'',
      cfg_bg = ''green'', cfg_state = NORMAL\<rparr> \<and>
   \<not> shows_idle \<lparr>pad_id = 1, pad_file = None, default_bg = ''#d9d9d9'', cfg_text = ''1'',
      cfg_bg = ''green'', cfg_state = NORMAL\<rparr>"
  by (simp add: pad_exec_def pad_sys_init_def PyCartButton_init_def do_load_def
      PyCartAudio_init_def whathdr_def from_wave_file_def play_def reset_def on_start_def
      on_stop_def shows_loaded_def shows_idle_def str_int_def str_nat.simps digit_char_def
      path_name_last path_parts_def)

subsection \<open>Consistency of a pad without a reset during playback\<close>

lemma run_step_over: "unit_over pc \<Longrightarrow> run_step fails a pc = ([], pc)"
  by (cases pc) simp_all

lemma apply_event_frame:
  "pad_file (apply_event ev b) = pad_file b \<and> default_bg (apply_event ev b) = default_bg b \<and>
   pad_id (apply_event ev b) = pad_id b"
  by (cases "(ev, b)" rule: apply_event.cases) (simp_all add: on_start_def on_stop_def)

lemma apply_event_consistent:
  "pad_file b \<noteq> None \<Longrightarrow> pad_consistent (apply_event ev b)"
  by (auto simp: pad_consistent_def apply_event_frame)

lemma fold_apply_event_frame:
  "pad_file (fold apply_event evs b) = pad_file b \<and>
   default_bg (fold apply_event evs b) = default_bg b"
  by (induction evs arbitrary: b) (simp_all add: apply_event_frame)

lemma fold_apply_event_consistent:
  "pad_file b \<noteq> None \<Longrightarrow> pad_consistent (fold apply_event evs b)"
  by (auto simp: pad_consistent_def fold_apply_event_frame)

lemma do_load_cases:
  "fst (do_load env fname b) = b \<or>
   (\<exists>a. fst (do_load env fname b) =
      b\<lparr>pad_file := Some a, cfg_text := path_name fname, cfg_bg := ''green''\<rparr>)"
  by (cases "PyCartAudio_init env fname On_start On_stop")
     (auto simp: do_load_failed_pad do_load_Inr)

lemma pad_inv_load:
  assumes "pad_inv s"
  shows "pad_inv (pad_step env (Load fname) s)"
proof -
  obtain b dialogs raised where d: "do_load env fname (pad s) = (b, dialogs, raised)"
    by (cases "do_load env fname (pad s)")
  from do_load_cases [of env fname "pad s"] d
  consider "b = pad s"
    | a where "b = (pad s)\<lparr>pad_file := Some a, cfg_text := path_name fname, cfg_bg := ''green''\<rparr>"
    by auto
  then show ?thesis
  proof cases
    case 1
    with assms d show ?thesis by (simp add: pad_inv_def)
  next
    case 2
    with assms d show ?thesis
      by (simp add: pad_inv_def pad_consistent_def shows_loaded_def shows_playing_def)
  qed
qed

lemma started_units_play_None: "pad_file b = None \<Longrightarrow> started_units (play b) = []"
  by (simp add: play_def)

lemma started_units_click_None: "pad_file b = None \<Longrightarrow> started_units (on_click b) = []"
  by (simp add: on_click_def play_def)

lemma pad_inv_play: "pad_inv s \<Longrightarrow> pad_inv (pad_step env Play s)"
  by (simp add: pad_inv_def started_units_play_None)

lemma pad_inv_click: "pad_inv s \<Longrightarrow> pad_inv (pad_step env Click s)"
  by (simp add: pad_inv_def started_units_click_None)

lemma pad_inv_reset:
  "pad_inv s \<Longrightarrow> list_all (\<lambda>u. unit_over (snd u)) (units s) \<Longrightarrow>
   pad_inv (pad_step env Reset s)"
  by (simp add: pad_inv_def pad_consistent_def reset_def shows_idle_def shows_loaded_def
      shows_playing_def)

lemma pad_inv_advance:
  assumes "pad_inv s"
  shows "pad_inv (pad_step env (Advance i) s)"
proof (cases "i < length (units s)")
  case False
  with assms show ?thesis by simp
next
  case True
  obtain a pc where u: "units s ! i = (a, pc)" by (cases "units s ! i")
  obtain evs pc' where r: "run_step False a pc = (evs, pc')" by (cases "run_step False a pc")
  show ?thesis
  proof (cases "pad_file (pad s)")
    case None
    with assms have "list_all (\<lambda>u. unit_over (snd u)) (units s)" by (simp add: pad_inv_def)
    with True u have "unit_over pc" by (auto simp: list_all_length dest: spec [of _ i])
    with r have "evs = []" "pc' = pc" by (simp_all add: run_step_over)
    with True u r have "pad_step env (Advance i) s = s" by (simp add: list_update_same_conv)
    with assms show ?thesis by simp
  next
    case (Some x)
    with assms True u r show ?thesis
      by (simp add: pad_inv_def fold_apply_event_frame fold_apply_event_consistent)
  qed
qed

text \<open>
  What does hold of the pad's appearance: as long as no Reset comes while a playback
  thread of the pad is running, the pad stays consistent under every schedule. (The
  widget's own background is taken to be neither of the two signal colours.)
\<close>

lemma pad_consistent_quiet_resets:
  assumes "pad_inv s" and "quiet_resets env acts s"
  shows "pad_inv (pad_exec env acts s)"
  using assms
proof (induction acts arbitrary: s)
  case Nil
  then show ?case by (simp add: pad_exec_def)
next
  case (Cons a acts)
  have "pad_inv (pad_step env a s)"
  proof (cases a)
    case (Load fname)
    with Cons.prems show ?thesis by (simp only: pad_inv_load)
  next
    case Play
    with Cons.prems show ?thesis by (simp only: pad_inv_play)
  next
    case Click
    with Cons.prems show ?thesis by (simp only: pad_inv_click)
  next
    case Reset
    with Cons.prems show ?thesis by (simp add: pad_inv_reset del: pad_step.simps)
  next
    case (Advance i)
    with Cons.prems show ?thesis by (simp only: pad_inv_advance)
  qed
  moreover from Cons.prems have "quiet_resets env acts (pad_step env a s)" by simp
  ultimately have "pad_inv (pad_exec env acts (pad_step env a s))" by (rule Cons.IH)
  then show ?case by (simp add: pad_exec_def)
qed

lemma pad_inv_init:
  "bg0 \<noteq> ''green'' \<Longrightarrow> bg0 \<noteq> ''red'' \<Longrightarrow> pad_inv (pad_sys_init i bg0)"
  by (simp add: pad_inv_def pad_sys_init_def PyCartButton_init_def pad_consistent_def
      shows_idle_def shows_loaded_def shows_playing_def)

lemma pad_consistent_from_init:
  assumes "bg0 \<noteq> ''green''" and "bg0 \<noteq> ''red''"
    and "quiet_resets env acts (pad_sys_init i bg0)"
  shows "pad_consistent (pad (pad_exec env acts (pad_sys_init i bg0)))"
proof -
  from assms(1,2) have "pad_inv (pad_sys_init i bg0 :: ('i, 'w) pad_sys)"
    by (rule pad_inv_init)
  then have "pad_inv (pad_exec env acts (pad_sys_init i bg0))"
    using assms(3) by (rule pad_consistent_quiet_resets)
  then show ?thesis by (simp add: pad_inv_def)
qed

subsection \<open>The configuration file\<close>

lemma normalize_utf_eq_8: "normalize_encoding ''utf=8'' = ''utf_8''"
  by (simp add: normalize_encoding_def is_alnum_def)

lemma load_conf_unfold:
  "load_conf env filename =
     (case conf_fs env filename of
        None \<Rightarrow> Inl (OSError filename)
      | Some content \<Rightarrow>
          (case codec_modules env ''utf_8'' of
             None \<Rightarrow> Inl (LookupError ''utf=8'')
           | Some decoder \<Rightarrow>
               (case decoder content of Inl e \<Rightarrow> Inl e | Inr txt \<Rightarrow> toml_loads env txt)))"
  by (simp add: load_conf_def bytes_decode_def normalize_utf_eq_8 split: option.splits)

text \<open>
  C10 (as amended): the codec registry normalizes the name \<^verbatim>\<open>utf=8\<close> to \<^verbatim>\<open>utf_8\<close>, the
  name of the UTF-8 codec module. So where that codec is installed, \<^verbatim>\<open>load_conf\<close>
  returns what \<^verbatim>\<open>toml.loads\<close> makes of the decoded text whenever the file opens and its
  content decodes; it raises only what \<^verbatim>\<open>open\<close>, the decoder or \<^verbatim>\<open>toml.loads\<close> raise.
\<close>

theorem load_conf_decodes_utf_8:
  assumes "codec_modules env ''utf_8'' = Some decoder"
  shows "normalize_encoding ''utf=8'' = ''utf_8'' \<and>
         (conf_fs env filename = None \<longrightarrow> load_conf env filename = Inl (OSError filename)) \<and>
         (\<forall>content. conf_fs env filename = Some content \<longrightarrow>
            bytes_decode env ''utf=8'' content = decoder content \<and>
            (\<forall>e. decoder content = Inl e \<longrightarrow> load_conf env filename = Inl e) \<and>
            (\<forall>txt. decoder content = Inr txt \<longrightarrow>
               load_conf env filename = toml_loads env txt))"
  using assms
  by (simp add: load_conf_unfold normalize_utf_eq_8 bytes_decode_def)

theorem load_conf_decodes_utf_8_witness:
  "codec_modules
     \<lparr>conf_fs = (\<lambda>p. if p = ''pads.toml'' then Some ''pads = []'' else None),
      codec_modules = (\<lambda>n. if n = ''utf_8'' then Some Inr else None),
      toml_loads = (\<lambda>txt. if txt = ''pads = []'' then Inr ''{pads: []}'' else Inl TomlDecodeError)\<rparr>
     ''utf_8'' = Some Inr \<and>
   load_conf
     \<lparr>conf_fs = (\<lambda>p. if p = ''pads.toml'' then Some ''pads = []'' else None),
      codec_modules = (\<lambda>n. if n = ''utf_8'' then Some Inr else None),
      toml_loads = (\<lambda>txt. if txt = ''pads = []'' then Inr ''{pads: []}'' else Inl TomlDecodeError)\<rparr>
     ''pads.toml'' = Inr ''{pads: []}''"
proof -
  let ?env = "\<lparr>conf_fs = (\<lambda>p. if p = ''pads.toml'' then Some ''pads = []'' else None),
      codec_modules = (\<lambda>n. if n = ''utf_8'' then Some Inr else None),
      toml_loads = (\<lambda>txt. if txt = ''pads = []'' then Inr ''{pads: []}'' else Inl TomlDecodeError)\<rparr>
      :: string conf_env"
  have c: "codec_modules ?env ''utf_8'' = Some Inr" by simp
  have f: "conf_fs ?env ''pads.toml'' = Some ''pads = []''" by simp
  from load_conf_decodes_utf_8 [OF c, of "''pads.toml''"] f
  have "load_conf ?env ''pads.toml'' = toml_loads ?env ''pads = []''" by blast
  with c show ?thesis by simp
qed

text \<open>
  C10 as stated fails wherever the UTF-8 codec is installed: \<^verbatim>\<open>load_conf\<close> returns the
  parsed document of a file whose content is valid UTF-8 and valid TOML.
\<close>

theorem load_conf_returns_counterexample:
  "load_conf
     \<lparr>conf_fs = (\<lambda>p. if p = ''pads.toml'' then Some ''pads = []'' else None),
      codec_modules = (\<lambda>n. if n = ''utf_8'' then Some Inr else None),
      toml_loads = (\<lambda>txt. if txt = ''pads = []'' then Inr ''{pads: []}'' else Inl TomlDecodeError)\<rparr>
     ''pads.toml'' = Inr ''{pads: []}'' \<and>
   bytes_decode
     \<lparr>conf_fs = (\<lambda>p. if p = ''pads.toml'' then Some ''pads = []'' else None),
      codec_modules = (\<lambda>n. if n = ''utf_8'' then Some Inr else None),
      toml_loads = (\<lambda>txt. if txt = ''pads = []'' then Inr ''{pads: []}'' else Inl TomlDecodeError)\<rparr>
     ''utf=8'' ''pads = []'' = Inr ''pads = []''"
  by (simp add: load_conf_def bytes_decode_def normalize_encoding_def is_alnum_def)

subsection \<open>The clock thread and stop\<close>

lemma events_after_notin: "ev \<notin> set h \<Longrightarrow> events_after ev h = []"
  by (auto simp: events_after_def)

lemma events_after_snoc:
  "events_after ev (h @ [e]) =
     (if ev \<in> set h then events_after ev h @ [e] else if e = ev then [e] else [])"
  by (induction h) (auto simp: events_after_def)

lemma clock_exec_snoc: "clock_exec (sched @ [a]) s = clock_step a (clock_exec sched s)"
  by (simp add: clock_exec_def)

lemma clock_exec_append: "clock_exec (xs @ ys) s = clock_exec ys (clock_exec xs s)"
  by (simp add: clock_exec_def)

lemma clock_inv_init: "clock_inv d (clock_sys_init d)"
  by (simp add: clock_inv_def clock_sys_init_def events_after_def calls_after_def)

lemma clock_inv_start:
  assumes "clock_inv d s"
  shows "clock_inv d (clock_step ThreadStart s)"
proof (cases "thread s")
  case Unstarted
  with assms show ?thesis by (simp add: clock_inv_def)
next
  case (Alive pc)
  with assms show ?thesis by simp
next
  case Ended
  with assms show ?thesis by simp
qed

lemma clock_inv_stop_step:
  assumes "clock_inv d s"
  shows "clock_inv d (stop_step s)"
proof (cases "stopper s")
  case StopNotCalled
  with assms show ?thesis
    by (simp add: clock_inv_def events_after_snoc calls_after_def events_after_notin)
next
  case StopAtJoin
  show ?thesis
  proof (cases "thread s")
    case Unstarted
    with StopAtJoin assms show ?thesis by (simp add: clock_inv_def)
  next
    case (Alive pc)
    with StopAtJoin assms show ?thesis by simp
  next
    case Ended
    with StopAtJoin assms show ?thesis
      by (simp add: clock_inv_def events_after_snoc calls_after_def)
  qed
next
  case StopReturned
  with assms show ?thesis by simp
next
  case (StopRaised e)
  with assms show ?thesis by simp
qed

lemma clock_inv_thread_step:
  assumes "clock_inv d s"
  shows "clock_inv d (thread_step now fails s)"
proof (cases "thread s")
  case Unstarted
  with assms show ?thesis by simp
next
  case Ended
  with assms show ?thesis by simp
next
  case (Alive pc)
  show ?thesis
  proof (cases pc)
    case AtWhile
    show ?thesis
    proof (cases "enabled (clock s)")
      case True
      with AtWhile Alive assms show ?thesis
        by (simp add: clock_inv_def events_after_snoc calls_after_def events_after_notin
            dict_values_def)
    next
      case False
      with AtWhile Alive assms show ?thesis by (simp add: clock_inv_def)
    qed
  next
    case AtSleep
    with Alive assms show ?thesis by (simp add: clock_inv_def)
  next
    case (InFor rest ct rm)
    show ?thesis
    proof (cases rest)
      case Nil
      with InFor Alive assms show ?thesis by (simp add: clock_inv_def)
    next
      case (Cons cb cbs)
      with InFor Alive assms show ?thesis
        by (auto simp: clock_inv_def events_after_snoc calls_after_def events_after_notin)
    qed
  qed
qed

lemma clock_inv_step:
  assumes "clock_inv d s"
  shows "clock_inv d (clock_step a s)"
proof (cases a)
  case ThreadStart
  with assms show ?thesis by (simp only: clock_inv_start)
next
  case (ThreadStep now fails)
  with assms show ?thesis by (simp only: clock_step.simps clock_inv_thread_step)
next
  case StopStep
  with assms show ?thesis by (simp only: clock_step.simps clock_inv_stop_step)
qed

lemma clock_inv_exec: "clock_inv d s \<Longrightarrow> clock_inv d (clock_exec sched s)"
  by (induction sched rule: rev_induct) (simp_all add: clock_exec_snoc clock_inv_step clock_exec_def)

lemma clock_inv_run: "clock_inv d (clock_run d sched)"
  unfolding clock_run_def by (intro clock_inv_exec clock_inv_init)

lemma thread_step_frame:
  "clock (thread_step now fails s) = clock s \<and> stopper (thread_step now fails s) = stopper s"
  by (simp split: thread_state.splits loop_pc.splits list.splits)

lemma thread_step_started:
  "thread s \<noteq> Unstarted \<Longrightarrow> thread (thread_step now fails s) \<noteq> Unstarted"
  by (simp split: thread_state.splits loop_pc.splits list.splits)

lemma thread_step_steps_left:
  "\<not> enabled (clock s) \<Longrightarrow>
   steps_left (thread (thread_step now fails s)) \<le> steps_left (thread s) - 1"
  by (simp split: thread_state.splits loop_pc.splits list.splits)

lemma steps_left_0: "thread s \<noteq> Unstarted \<Longrightarrow> steps_left (thread s) = 0 \<Longrightarrow> thread s = Ended"
  by (cases "thread s" rule: steps_left.cases) simp_all

lemma steps_left_pending: "steps_left t \<le> pending t + 3"
  by (cases t rule: steps_left.cases) simp_all

lemma thread_steps_end:
  assumes "\<not> enabled (clock s)" and "thread s \<noteq> Unstarted"
    and "steps_left (thread s) \<le> length steps"
  shows "thread (clock_exec (map (\<lambda>(now, fails). ThreadStep now fails) steps) s) = Ended \<and>
         stopper (clock_exec (map (\<lambda>(now, fails). ThreadStep now fails) steps) s) = stopper s"
  using assms
proof (induction steps arbitrary: s)
  case Nil
  then have "steps_left (thread s) = 0" by simp
  with Nil.prems(2) have "thread s = Ended" by (rule steps_left_0)
  then show ?case by (simp add: clock_exec_def)
next
  case (Cons p steps)
  obtain now fails where p: "p = (now, fails)" by (cases p)
  let ?s = "thread_step now fails s"
  have e: "\<not> enabled (clock ?s)" using Cons.prems(1)
    by (simp add: thread_step_frame del: thread_step.simps)
  have u: "thread ?s \<noteq> Unstarted" using Cons.prems(2) by (rule thread_step_started)
  have "steps_left (thread ?s) \<le> steps_left (thread s) - 1"
    using Cons.prems(1) by (rule thread_step_steps_left)
  with Cons.prems(3) have l: "steps_left (thread ?s) \<le> length steps" by simp
  from Cons.IH [OF e u l] p show ?case
    by (simp add: clock_exec_def thread_step_frame del: thread_step.simps)
qed

text \<open>
  C7: in every state that the clock thread and a call of \<^verbatim>\<open>stop\<close> can reach, under any
  schedule: if \<^verbatim>\<open>stop\<close> has returned, the thread has ended; while the thread is alive,
  \<^verbatim>\<open>stop\<close> stays in \<^verbatim>\<open>join\<close>; the history records no callback call after the return of
  \<^verbatim>\<open>stop\<close>; after \<^verbatim>\<open>stop\<close> has cleared \<^verbatim>\<open>self.enabled\<close> no new tick begins and at most
  the calls of the tick in progress are made. And \<^verbatim>\<open>stop\<close> does return: once it waits
  in \<^verbatim>\<open>join\<close> for a started thread, that thread ends within as many steps as there are
  callbacks plus three, and the next step of \<^verbatim>\<open>stop\<close> returns.
\<close>

theorem stop_returns_after_clock_thread_ended:
  "(stopper (clock_run d sched) = StopReturned \<longrightarrow> thread (clock_run d sched) = Ended) \<and>
   (stopper (clock_run d sched) = StopAtJoin \<and> thread (clock_run d sched) = Alive pc \<longrightarrow>
      stop_step (clock_run d sched) = clock_run d sched) \<and>
   calls_after Joined (history (clock_run d sched)) = [] \<and>
   TickBegan \<notin> set (events_after Disabled (history (clock_run d sched))) \<and>
   length (calls_after Disabled (history (clock_run d sched))) \<le> length d \<and>
   (stopper (clock_run d sched) = StopAtJoin \<and> thread (clock_run d sched) \<noteq> Unstarted \<and>
    length d + 3 \<le> length steps \<longrightarrow>
      stopper (clock_exec (map (\<lambda>(now, fails). ThreadStep now fails) steps @ [StopStep])
                 (clock_run d sched)) = StopReturned)"
proof -
  let ?s = "clock_run d sched"
  have inv: "clock_inv d ?s" by (rule clock_inv_run)
  then have 1: "stopper ?s = StopReturned \<longrightarrow> thread ?s = Ended"
    by (simp add: clock_inv_def)
  have 2: "stopper ?s = StopAtJoin \<and> thread ?s = Alive pc \<longrightarrow> stop_step ?s = ?s"
    by simp
  from inv have 3: "calls_after Joined (history ?s) = []"
    by (simp add: clock_inv_def calls_after_def)
  from inv have 4: "TickBegan \<notin> set (events_after Disabled (history ?s))"
    by (simp add: clock_inv_def)
  from inv have 5: "length (calls_after Disabled (history ?s)) \<le> length d"
    by (simp add: clock_inv_def)
  have 6: "stopper (clock_exec (map (\<lambda>(now, fails). ThreadStep now fails) steps @ [StopStep]) ?s)
             = StopReturned"
    if j: "stopper ?s = StopAtJoin" and u: "thread ?s \<noteq> Unstarted"
      and n: "length d + 3 \<le> length steps"
  proof -
    from inv j have e: "\<not> enabled (clock ?s)" by (simp add: clock_inv_def)
    from inv have "pending (thread ?s) \<le> length d" by (simp add: clock_inv_def)
    with n steps_left_pending [of "thread ?s"] have l: "steps_left (thread ?s) \<le> length steps"
      by simp
    from thread_steps_end [OF e u l] j show ?thesis
      by (simp add: clock_exec_append clock_exec_def del: thread_step.simps)
  qed
  have 7: "stopper ?s = StopAtJoin \<and> thread ?s \<noteq> Unstarted \<and> length d + 3 \<le> length steps \<longrightarrow>
      stopper (clock_exec (map (\<lambda>(now, fails). ThreadStep now fails) steps @ [StopStep]) ?s)
        = StopReturned"
    using 6 by (intro impI) (elim conjE)
  show ?thesis by (intro conjI 1 2 3 4 5 7)
qed

theorem stop_returns_after_clock_thread_ended_witness:
  "stopper (clock_run [(''mini'', ''update'')]
     [ThreadStart,
      ThreadStep \<lparr>hour = 14, minute = 59, second = 47\<rparr> False,
      ThreadStep \<lparr>hour = 14, minute = 59, second = 47\<rparr> False,
      StopStep, StopStep,
      ThreadStep \<lparr>hour = 14, minute = 59, second = 47\<rparr> False,
      ThreadStep \<lparr>hour = 14, minute = 59, second = 47\<rparr> False,
      ThreadStep \<lparr>hour = 14, minute = 59, second = 48\<rparr> False,
      StopStep]) = StopReturned \<and>
   thread (clock_run [(''mini'', ''update'')]
     [ThreadStart,
      ThreadStep \<lparr>hour = 14, minute = 59, second = 47\<rparr> False,
      ThreadStep \<lparr>hour = 14, minute = 59, second = 47\<rparr> False,
      StopStep, StopStep,
      ThreadStep \<lparr>hour = 14, minute = 59, second = 47\<rparr> False,
      ThreadStep \<lparr>hour = 14, minute = 59, second = 47\<rparr> False,
      ThreadStep \<lparr>hour = 14, minute = 59, second = 48\<rparr> False,
      StopStep]) = Ended \<and>
   history (clock_run [(''mini'', ''update'')]
     [ThreadStart,
      ThreadStep \<lparr>hour = 14, minute = 59, second = 47\<rparr> False,
      ThreadStep \<lparr>hour = 14, minute = 59, second = 47\<rparr> False,
      StopStep, StopStep,
      ThreadStep \<lparr>hour = 14, minute = 59, second = 47\<rparr> False,
      ThreadStep \<lparr>hour = 14, minute = 59, second = 47\<rparr> False,
      ThreadStep \<lparr>hour = 14, minute = 59, second = 48\<rparr> False,
      StopStep]) =
     [TickBegan, Invoked (Call ''update'' ''14:59:47'' ''-00:13''), Disabled, Joined]"
proof -
  let ?s = "clock_run [(''mini'', ''update'')]
     [ThreadStart,
      ThreadStep \<lparr>hour = 14, minute = 59, second = 47\<rparr> False,
      ThreadStep \<lparr>hour = 14, minute = 59, second = 47\<rparr> False,
      StopStep, StopStep,
      ThreadStep \<lparr>hour = 14, minute = 59, second = 47\<rparr> False,
      ThreadStep \<lparr>hour = 14, minute = 59, second = 47\<rparr> False,
      ThreadStep \<lparr>hour = 14, minute = 59, second = 48\<rparr> False,
      StopStep]"
  have r: "stopper ?s = StopReturned"
    and h: "history ?s =
      [TickBegan, Invoked (Call ''update'' ''14:59:47'' ''-00:13''), Disabled, Joined]"
    by (simp_all add: clock_run_def clock_exec_def clock_sys_init_def dict_values_def
        strings_at_14_59_47)
  have t: "thread ?s = Ended"
    by (rule stop_returns_after_clock_thread_ended [THEN conjunct1, THEN mp, OF r])
  show ?thesis by (intro conjI r t h)
qed

end
